theory Spec2Isabelle
  imports Main "HOL-Library.Word"
begin

unbundle bit_operations_syntax

section \<open>Data model of \<open>xlsx_crypto.cpp\<close>\<close>

text \<open>
  Bytes are \<open>std::uint8_t\<close>, buffers are \<open>std::vector<std::uint8_t>\<close>. The host is taken
  to be little-endian with a 64-bit \<open>std::size_t\<close> (the LP64 targets the library is built
  for): every \<open>reinterpret_cast\<close> of the source reads or writes an integer in the byte
  order of the host.
\<close>

type_synonym byte = "8 word"
type_synonym bytes = "byte list"

text \<open>
  What a call can end with, other than a value. \<open>Exception\<close> is \<open>xlnt::exception(msg)\<close>,
  \<open>Unsupported\<close> is \<open>xlnt::unsupported(msg)\<close>, \<open>Thrown\<close> is the \<open>throw "..."\<close> of a
  string literal, \<open>XmlParsing\<close> is the \<open>xml::parsing\<close> exception of the pull parser.
  \<open>RangeError\<close>, \<open>LengthError\<close> and \<open>BadAlloc\<close> are the exceptions of the standard
  library: \<open>std::range_error\<close> of a failed character conversion, \<open>std::length_error\<close> of a
  vector asked to grow beyond \<open>max_size()\<close>, \<open>std::bad_alloc\<close> of a failed allocation.
  \<open>OutOfBounds\<close> marks an access outside a buffer or an iterator range that is not
  inside it: the C++ has no check there, the behaviour is undefined, and no exception
  of the library is raised.
\<close>

datatype error =
    Exception string
  | Unsupported string
  | Thrown string
  | XmlParsing
  | RangeError
  | LengthError
  | BadAlloc
  | OutOfBounds

datatype hash_algorithm = sha1 | sha512

datatype cipher_algorithm = aes | rc2 | rc4 | des | desx | triple_des | triple_des_112

text \<open>
  The events of the pull parser (\<open>xml::parser\<close>): a start tag with its namespace, its
  name and its attributes, an end tag with the namespace and name of the element it
  closes, character data. The end of the document is the end of the list.
\<close>

datatype xml_event =
    start_element string string "(string \<times> string) list"
  | end_element string string
  | characters string

datatype event_type = start_element_t | end_element_t | characters_t | eof_t

text \<open>
  The collaborators of this file, which live in other files of the library: the SHA and
  AES primitives and base64 (\<open>detail/crypto\<close>), the compound-document reader
  (\<open>POLE::Storage\<close>: \<open>None\<close> when \<open>open()\<close> fails, otherwise the named streams, a
  stream that is absent having failed), the tokenizer of the XML parser with its reading
  of a \<open>std::size_t\<close> attribute, the two namespace constants of \<open>detail/constants.hpp\<close>.
  With them come two parts of the standard library: \<open>from_bytes\<close> of
  \<open>std::wstring_convert<std::codecvt_utf8_utf16<char16_t>, char16_t>\<close>, which is \<open>None\<close>
  where the conversion fails and \<open>std::range_error\<close> is thrown, and the allocator, of
  which \<open>allocates n\<close> says whether a buffer of \<open>n\<close> bytes can be had. Every function
  of the model takes them as the parameter \<open>P\<close>.
\<close>

record collaborators =
  prim_sha1 :: "bytes \<Rightarrow> bytes"
  prim_sha512 :: "bytes \<Rightarrow> bytes"
  aes_ecb_decrypt :: "bytes \<Rightarrow> bytes \<Rightarrow> bytes"
  aes_cbc_decrypt :: "bytes \<Rightarrow> bytes \<Rightarrow> bytes \<Rightarrow> bytes"
  decode_base64 :: "string \<Rightarrow> bytes"
  pole_open :: "bytes \<Rightarrow> (string \<Rightarrow> bytes option) option"
  xml_events :: "bytes \<Rightarrow> xml_event list"
  parse_size_t :: "string \<Rightarrow> 64 word option"
  xmlns :: string
  xmlns_p :: string
  from_bytes :: "string \<Rightarrow> 16 word list option"
  allocates :: "nat \<Rightarrow> bool"

definition bindE :: "error + 'a \<Rightarrow> ('a \<Rightarrow> error + 'b) \<Rightarrow> error + 'b" where
  "bindE m f = (case m of Inl e \<Rightarrow> Inl e | Inr x \<Rightarrow> f x)"

subsection \<open>Integers in buffers\<close>

definition le_word :: "bytes \<Rightarrow> 'a::len word" where
  "le_word bs = foldr (\<lambda>b w. ucast b OR push_bit 8 w) bs 0"

definition le_bytes :: "'a::len word \<Rightarrow> bytes" where
  "le_bytes w = map (\<lambda>i. ucast (drop_bit (8 * i) w)) [0..<LENGTH('a) div 8]"

text \<open>
  \<open>read_int<T>(index, raw_data)\<close>: \<open>*reinterpret_cast<const T *>(&raw_data[index])\<close>, then
  \<open>index += sizeof(T)\<close>. The new index is returned with the value. There is no check in
  the source: a read that does not fit in the buffer is \<open>OutOfBounds\<close>.
\<close>

definition read_int :: "nat \<Rightarrow> bytes \<Rightarrow> error + ('a::len word \<times> nat)" where
  "read_int index raw_data =
     (if index + LENGTH('a) div 8 \<le> length raw_data
      then Inr (le_word (take (LENGTH('a) div 8) (drop index raw_data)), index + LENGTH('a) div 8)
      else Inl OutOfBounds)"

text \<open>
  \<open>std::vector<std::uint8_t>(v.begin() + b, v.begin() + e)\<close>: the iterator-range
  constructor. A range that leaves the buffer, or ends before it starts, is undefined.
\<close>

definition vector_range :: "nat \<Rightarrow> nat \<Rightarrow> 'a list \<Rightarrow> error + 'a list" where
  "vector_range b e v =
     (if b \<le> e \<and> e \<le> length v then Inr (take (e - b) (drop b v))
      else Inl OutOfBounds)"

text \<open>
  \<open>v.resize(n, x)\<close>: cut to \<open>n\<close> elements, or filled up to \<open>n\<close> elements with \<open>x\<close>.
  This is the resize of the buffers inside the computation (keys, initialisation
  vectors, segments, the salt with its counter), whose allocation the model does not
  follow: where a property depends on such a buffer having been allocated, it says so
  in its hypotheses. The resize to the length prefix of the package is
  \<open>vector_resize\<close> below.
\<close>

definition resize :: "nat \<Rightarrow> 'a \<Rightarrow> 'a list \<Rightarrow> 'a list" where
  "resize n x v = take n v @ replicate (n - length v) x"

text \<open>
  \<open>std::vector<std::uint8_t>::max_size()\<close> on the 64-bit targets: \<open>PTRDIFF_MAX\<close>,
  that is \<open>2^63 - 1\<close>.
\<close>

definition max_size :: nat where
  "max_size = 9223372036854775807"

text \<open>
  \<open>v.resize(n)\<close> where \<open>n\<close> comes unchecked from the input: a vector that is long enough
  is cut; one that has to grow throws \<open>std::length_error\<close> beyond \<open>max_size()\<close> and
  \<open>std::bad_alloc\<close> when the allocation fails (the capacity being taken to be the size),
  and is otherwise filled up with zero bytes.
\<close>

definition vector_resize :: "collaborators \<Rightarrow> nat \<Rightarrow> bytes \<Rightarrow> error + bytes" where
  "vector_resize P n v =
     (if n \<le> length v then Inr (take n v)
      else if max_size < n then Inl LengthError
      else if \<not> allocates P n then Inl BadAlloc
      else Inr (v @ replicate (n - length v) 0))"

text \<open>
  \<open>hash(algorithm, input)\<close>. The enumeration has two values, so the \<open>throw\<close> after the two
  branches of the source is never reached.
\<close>

fun hash :: "collaborators \<Rightarrow> hash_algorithm \<Rightarrow> bytes \<Rightarrow> bytes" where
  "hash P sha512 input = prim_sha512 P input"
| "hash P sha1 input = prim_sha1 P input"

subsection \<open>The key derivation loop\<close>

text \<open>
  \<open>salt_plus_password\<close>: every UTF-16 code unit of the password is appended as its two
  bytes in host order.
\<close>

definition password_bytes :: "16 word list \<Rightarrow> bytes" where
  "password_bytes password = concat (map le_bytes password)"

text \<open>
  A \<open>std::uint32_t &\<close> obtained by \<open>reinterpret_cast\<close> from \<open>v.data() + at\<close>: reading
  the reference reads four bytes of the buffer, assigning to it overwrites them.
\<close>

definition load_u32 :: "nat \<Rightarrow> bytes \<Rightarrow> 32 word" where
  "load_u32 at v = le_word (take 4 (drop at v))"

definition store_u32 :: "nat \<Rightarrow> 32 word \<Rightarrow> bytes \<Rightarrow> bytes" where
  "store_u32 at w v = take at v @ le_bytes w @ drop (at + 4) v"

text \<open>
  \<open>std::uint32_t &iterator = *reinterpret_cast<std::uint32_t *>(iterator_plus_h_n.data())\<close>:
  the loop counter is the first four bytes of the buffer that is hashed.
\<close>

definition get_iterator :: "bytes \<Rightarrow> 32 word" where
  "get_iterator iterator_plus_h_n = load_u32 0 iterator_plus_h_n"

definition set_iterator :: "32 word \<Rightarrow> bytes \<Rightarrow> bytes" where
  "set_iterator i iterator_plus_h_n = store_u32 0 i iterator_plus_h_n"

text \<open>
  \<open>std::copy(src.begin(), src.end(), dst.begin() + at)\<close>: overwrites in place, and is
  undefined when the source does not fit.
\<close>

definition copy_into :: "'a list \<Rightarrow> nat \<Rightarrow> 'a list \<Rightarrow> error + 'a list" where
  "copy_into src at dst =
     (if at + length src \<le> length dst
      then Inr (take at dst @ src @ drop (at + length src) dst)
      else Inl OutOfBounds)"

text \<open>
  \<open>for (iterator = 0; iterator < spin_count; ++iterator)\<close> with its body, started after
  \<open>iterator = 0\<close>. \<open>iterator\<close> has 32 bits and \<open>spin_count\<close> is a \<open>std::size_t\<close>: the
  comparison is made at 64 bits and \<open>++iterator\<close> wraps at \<open>2^32\<close>. \<open>None\<close> is a loop that
  never exits.
\<close>

partial_function (option) spin_loop ::
  "(bytes \<Rightarrow> bytes) \<Rightarrow> 64 word \<Rightarrow> bytes \<Rightarrow> bytes \<Rightarrow> (error + bytes) option" where
  "spin_loop H spin_count iterator_plus_h_n h_n =
     (if (ucast (get_iterator iterator_plus_h_n) :: 64 word) < spin_count then
        (case copy_into (H iterator_plus_h_n) 4 iterator_plus_h_n of
           Inl e \<Rightarrow> Some (Inl e)
         | Inr buf \<Rightarrow>
             spin_loop H spin_count (set_iterator (get_iterator buf + 1) buf) (H iterator_plus_h_n))
      else Some (Inr h_n))"

text \<open>
  The lines from \<open>// H_0 = H(salt + password)\<close> to the end of the loop, the same in
  \<open>decrypt_xlsx_standard\<close> and in \<open>decrypt_xlsx_agile\<close>: the value is \<open>h_n\<close>, which is
  the empty vector when the loop body never ran.
\<close>

definition derive_h_n ::
  "(bytes \<Rightarrow> bytes) \<Rightarrow> bytes \<Rightarrow> 16 word list \<Rightarrow> 64 word \<Rightarrow> (error + bytes) option" where
  "derive_h_n H salt password spin_count =
     (let salt_plus_password = salt @ password_bytes password;
          h_0 = H salt_plus_password;
          iterator_plus_h_n = replicate 4 0 @ h_0
      in spin_loop H spin_count (set_iterator 0 iterator_plus_h_n) [])"

subsection \<open>\<open>decrypt_xlsx_standard\<close>\<close>

text \<open>
  The members of \<open>standard_encryption_info\<close> that the function assigns or that have an
  initialiser. Salt and verifier are locals of the function, not members.
\<close>

record standard_encryption_info =
  std_spin_count :: "64 word"
  std_key_bits :: "64 word"
  std_key_bytes :: "64 word"
  std_cipher :: cipher_algorithm
  std_hash :: hash_algorithm

text \<open>The characters of a string literal, as the bytes of a \<open>std::string\<close>.\<close>

definition c_str :: "string \<Rightarrow> bytes" where
  "c_str s = map (\<lambda>c. word_of_nat (of_char c)) s"

text \<open>
  A byte range read through \<open>const std::uint16_t *\<close>: the code units in host order; a
  trailing odd byte is not part of any unit.
\<close>

fun wide_chars :: "bytes \<Rightarrow> 16 word list" where
  "wide_chars (a # b # rest) = le_word [a, b] # wide_chars rest"
| "wide_chars rest = []"

text \<open>
  \<open>std::string csp_name(csp_name_wide.begin(), csp_name_wide.end() - 1)\<close>: every code unit
  but the last, narrowed to \<open>char\<close>. On an empty vector \<open>end() - 1\<close> is before \<open>begin()\<close>.
\<close>

definition narrow_without_last :: "16 word list \<Rightarrow> error + bytes" where
  "narrow_without_last csp_name_wide =
     (if csp_name_wide = [] then Inl OutOfBounds else Inr (map ucast (butlast csp_name_wide)))"

text \<open>
  The first part of \<open>decrypt_xlsx_standard\<close>, down to \<open>offset += verifier_hash_size\<close>:
  the header fields in their order, each \<open>throw\<close> where the source has it. The value is
  \<open>info\<close> with the locals \<open>salt\<close>, \<open>verifier_hash_input\<close> and \<open>verifier_hash_value\<close>.
  \<open>csp_name_length\<close> is a \<open>std::size_t\<close> difference, so it wraps when \<open>header_length\<close>
  is less than the 32 bytes read since \<open>index_at_start\<close>.
\<close>

definition standard_header ::
  "bytes \<Rightarrow> error + (standard_encryption_info \<times> bytes \<times> bytes \<times> bytes)" where
  "standard_header encryption_info =
     bindE (read_int 0 encryption_info) (\<lambda>(header_length :: 32 word, offset).
     let index_at_start = offset in
     bindE (read_int offset encryption_info) (\<lambda>(skip_flags :: 32 word, offset).
     bindE (read_int offset encryption_info) (\<lambda>(size_extra :: 32 word, offset).
     bindE (read_int offset encryption_info) (\<lambda>(alg_id :: 32 word, offset).
     if \<not> (alg_id = 0 \<or> alg_id = 0x0000660E \<or> alg_id = 0x0000660F \<or> alg_id = 0x00006610)
     then Inl (Exception ''invalid cipher algorithm'') else
     bindE (read_int offset encryption_info) (\<lambda>(alg_id_hash :: 32 word, offset).
     if alg_id_hash \<noteq> 0x00008004 \<and> alg_id_hash = 0
     then Inl (Exception ''invalid hash algorithm'') else
     bindE (read_int offset encryption_info) (\<lambda>(key_bits :: 32 word, offset).
     let info = \<lparr> std_spin_count = 50000, std_key_bits = ucast key_bits,
                  std_key_bytes = ucast key_bits div 8, std_cipher = aes, std_hash = sha1 \<rparr> in
     bindE (read_int offset encryption_info) (\<lambda>(provider_type :: 32 word, offset).
     if provider_type \<noteq> 0 \<and> provider_type \<noteq> 0x00000018
     then Inl (Exception ''invalid provider type'') else
     bindE (read_int offset encryption_info) (\<lambda>(reserved1 :: 32 word, offset).
     bindE (read_int offset encryption_info) (\<lambda>(reserved2 :: 32 word, offset).
     if reserved2 \<noteq> 0 then Inl (Exception ''invalid header'') else
     let csp_name_length = (ucast header_length :: 64 word) - word_of_nat (offset - index_at_start);
         csp_end = unat (word_of_nat offset + csp_name_length) in
     bindE (vector_range offset csp_end encryption_info) (\<lambda>csp_bytes.
     let csp_name_wide = wide_chars csp_bytes in
     bindE (narrow_without_last csp_name_wide) (\<lambda>csp_name.
     if csp_name \<noteq> c_str ''Microsoft Enhanced RSA and AES Cryptographic Provider (Prototype)''
        \<and> csp_name \<noteq> c_str ''Microsoft Enhanced RSA and AES Cryptographic Provider''
     then Inl (Exception ''invalid cryptographic provider'') else
     let offset = csp_end in
     bindE (read_int offset encryption_info) (\<lambda>(salt_size :: 32 word, offset).
     bindE (vector_range offset (offset + unat salt_size) encryption_info) (\<lambda>salt.
     let offset = offset + unat salt_size;
         verifier_size = 16 in
     bindE (vector_range offset (offset + verifier_size) encryption_info) (\<lambda>verifier_hash_input.
     let offset = offset + verifier_size in
     bindE (read_int offset encryption_info) (\<lambda>(verifier_hash_size :: 32 word, offset).
     bindE (vector_range offset (offset + unat verifier_hash_size) encryption_info)
       (\<lambda>verifier_hash_value.
     Inr (info, salt, verifier_hash_input, verifier_hash_value)))))))))))))))))"

text \<open>
  \<open>std::vector<std::uint8_t> buffer(64, c)\<close> followed by \<open>buffer[i] = c ^ h_final[i]\<close> for
  every index of \<open>h_final\<close>: a digest of more than 64 bytes would be written past the
  buffer.
\<close>

definition xor_buffer :: "byte \<Rightarrow> bytes \<Rightarrow> error + bytes" where
  "xor_buffer c h_final =
     (if length h_final \<le> 64
      then Inr (map (\<lambda>b. c XOR b) h_final @ replicate (64 - length h_final) c)
      else Inl OutOfBounds)"

text \<open>From \<open>// H_final = H(H_n + block)\<close> to \<open>key_derived\<close>.\<close>

definition standard_key ::
  "collaborators \<Rightarrow> standard_encryption_info \<Rightarrow> bytes \<Rightarrow> error + bytes" where
  "standard_key P info h_n =
     (let h_n_plus_block = h_n @ le_bytes (0 :: 32 word);
          h_final = hash P (std_hash info) h_n_plus_block in
      bindE (xor_buffer 0x36 h_final) (\<lambda>buffer.
      let X1 = hash P (std_hash info) buffer in
      bindE (xor_buffer 0x5c h_final) (\<lambda>buffer.
      let X2 = hash P (std_hash info) buffer;
          X3 = X1 @ X2 in
      vector_range 0 (unat (std_key_bytes info)) X3)))"

text \<open>
  From \<open>std::size_t package_offset = 0\<close> to the \<open>return\<close>. Once the eight bytes of the
  length have been read, \<open>encrypted_package.begin() + 8\<close> is inside the buffer.
\<close>

definition standard_package :: "collaborators \<Rightarrow> bytes \<Rightarrow> bytes \<Rightarrow> error + bytes" where
  "standard_package P key_derived encrypted_package =
     bindE (read_int 0 encrypted_package) (\<lambda>(decrypted_size :: 64 word, package_offset).
     let decrypted = aes_ecb_decrypt P (drop 8 encrypted_package) key_derived in
     vector_resize P (unat decrypted_size) decrypted)"

definition decrypt_xlsx_standard ::
  "collaborators \<Rightarrow> bytes \<Rightarrow> 16 word list \<Rightarrow> bytes \<Rightarrow> (error + bytes) option" where
  "decrypt_xlsx_standard P encryption_info password encrypted_package =
     (case standard_header encryption_info of
        Inl e \<Rightarrow> Some (Inl e)
      | Inr (info, salt, verifier_hash_input, verifier_hash_value) \<Rightarrow>
          Option.bind (derive_h_n (hash P (std_hash info)) salt password (std_spin_count info))
            (\<lambda>r. Some (bindE r (\<lambda>h_n.
                   bindE (standard_key P info h_n) (\<lambda>key_derived.
                   standard_package P key_derived encrypted_package)))))"

subsection \<open>The pull parser as \<open>decrypt_xlsx_agile\<close> drives it\<close>

text \<open>
  Modelled from the spec: the XML reader is an external collaborator, ``a pull-style
  reader exposing start/end element events and typed attribute lookup by name''. The
  parser state is the list of events still to come; \<open>next_expect\<close> hands out the event it
  consumed, whose attributes the following \<open>attribute\<close> calls look up. An event that is
  not the expected one, and an attribute that is absent or does not read as the
  requested type, raise \<open>xml::parsing\<close>; the parser's own validation of the document
  beyond that is not part of this model.
\<close>

fun type_of :: "xml_event \<Rightarrow> event_type" where
  "type_of (start_element ns n attrs) = start_element_t"
| "type_of (end_element ns n) = end_element_t"
| "type_of (characters s) = characters_t"

fun namespace_of :: "xml_event \<Rightarrow> string" where
  "namespace_of (start_element ns n attrs) = ns"
| "namespace_of (end_element ns n) = ns"
| "namespace_of (characters s) = []"

fun name :: "xml_event \<Rightarrow> string" where
  "name (start_element ns n attrs) = n"
| "name (end_element ns n) = n"
| "name (characters s) = []"

fun attributes :: "xml_event \<Rightarrow> (string \<times> string) list" where
  "attributes (start_element ns n attrs) = attrs"
| "attributes (end_element ns n) = []"
| "attributes (characters s) = []"

definition peek :: "xml_event list \<Rightarrow> event_type" where
  "peek evs = (case evs of [] \<Rightarrow> eof_t | ev # rest \<Rightarrow> type_of ev)"

definition next_expect :: "event_type \<Rightarrow> xml_event list \<Rightarrow> error + (xml_event \<times> xml_event list)" where
  "next_expect t evs =
     (case evs of
        [] \<Rightarrow> Inl XmlParsing
      | ev # rest \<Rightarrow> if type_of ev = t then Inr (ev, rest) else Inl XmlParsing)"

definition next_expect_named ::
  "event_type \<Rightarrow> string \<Rightarrow> string \<Rightarrow> xml_event list \<Rightarrow> error + (xml_event \<times> xml_event list)" where
  "next_expect_named t ns n evs =
     (case evs of
        [] \<Rightarrow> Inl XmlParsing
      | ev # rest \<Rightarrow>
          if type_of ev = t \<and> namespace_of ev = ns \<and> name ev = n then Inr (ev, rest)
          else Inl XmlParsing)"

definition attribute :: "string \<Rightarrow> xml_event \<Rightarrow> error + string" where
  "attribute a ev = (case map_of (attributes ev) a of None \<Rightarrow> Inl XmlParsing | Some v \<Rightarrow> Inr v)"

definition attribute_size_t :: "collaborators \<Rightarrow> string \<Rightarrow> xml_event \<Rightarrow> error + 64 word" where
  "attribute_size_t P a ev =
     bindE (attribute a ev) (\<lambda>v.
     case parse_size_t P v of None \<Rightarrow> Inl XmlParsing | Some n \<Rightarrow> Inr n)"

subsection \<open>\<open>decrypt_xlsx_agile\<close>: the header\<close>

record agile_key_data =
  kd_salt_size :: "64 word"
  kd_block_size :: "64 word"
  kd_key_bits :: "64 word"
  kd_hash_size :: "64 word"
  kd_cipher_algorithm :: string
  kd_cipher_chaining :: string
  kd_hash_algorithm :: string
  kd_salt_value :: bytes

record agile_data_integrity =
  hmac_key :: bytes
  hmac_value :: bytes

record agile_key_encryptor =
  ke_spin_count :: "64 word"
  ke_salt_size :: "64 word"
  ke_block_size :: "64 word"
  ke_key_bits :: "64 word"
  ke_hash_size :: "64 word"
  ke_cipher_algorithm :: string
  ke_cipher_chaining :: string
  ke_hash :: hash_algorithm
  ke_salt_value :: bytes
  ke_verifier_hash_input :: bytes
  ke_verifier_hash_value :: bytes
  ke_encrypted_key_value :: bytes

record agile_encryption_info =
  key_data :: agile_key_data
  data_integrity :: agile_data_integrity
  key_encryptor :: agile_key_encryptor

text \<open>The eight attribute reads between the start and the end tag of \<open>keyData\<close>.\<close>

definition read_key_data :: "collaborators \<Rightarrow> xml_event \<Rightarrow> error + agile_key_data" where
  "read_key_data P ev =
     bindE (attribute_size_t P ''saltSize'' ev) (\<lambda>salt_size.
     bindE (attribute_size_t P ''blockSize'' ev) (\<lambda>block_size.
     bindE (attribute_size_t P ''keyBits'' ev) (\<lambda>key_bits.
     bindE (attribute_size_t P ''hashSize'' ev) (\<lambda>hash_size.
     bindE (attribute ''cipherAlgorithm'' ev) (\<lambda>cipher_algorithm.
     bindE (attribute ''cipherChaining'' ev) (\<lambda>cipher_chaining.
     bindE (attribute ''hashAlgorithm'' ev) (\<lambda>hash_algorithm.
     bindE (attribute ''saltValue'' ev) (\<lambda>salt_value.
     Inr \<lparr> kd_salt_size = salt_size, kd_block_size = block_size, kd_key_bits = key_bits,
           kd_hash_size = hash_size, kd_cipher_algorithm = cipher_algorithm,
           kd_cipher_chaining = cipher_chaining, kd_hash_algorithm = hash_algorithm,
           kd_salt_value = decode_base64 P salt_value \<rparr>))))))))"

definition read_data_integrity :: "collaborators \<Rightarrow> xml_event \<Rightarrow> error + agile_data_integrity" where
  "read_data_integrity P ev =
     bindE (attribute ''encryptedHmacKey'' ev) (\<lambda>k.
     bindE (attribute ''encryptedHmacValue'' ev) (\<lambda>v.
     Inr \<lparr> hmac_key = decode_base64 P k, hmac_value = decode_base64 P v \<rparr>))"

text \<open>The body of the \<open>if\<close> that recognises a password \<open>encryptedKey\<close> element.\<close>

definition read_encrypted_key :: "collaborators \<Rightarrow> xml_event \<Rightarrow> error + agile_key_encryptor" where
  "read_encrypted_key P ev =
     bindE (attribute_size_t P ''spinCount'' ev) (\<lambda>spin_count.
     bindE (attribute_size_t P ''saltSize'' ev) (\<lambda>salt_size.
     bindE (attribute_size_t P ''blockSize'' ev) (\<lambda>block_size.
     bindE (attribute_size_t P ''keyBits'' ev) (\<lambda>key_bits.
     bindE (attribute_size_t P ''hashSize'' ev) (\<lambda>hash_size.
     bindE (attribute ''cipherAlgorithm'' ev) (\<lambda>cipher_algorithm.
     bindE (attribute ''cipherChaining'' ev) (\<lambda>cipher_chaining.
     bindE (attribute ''hashAlgorithm'' ev) (\<lambda>hash_algorithm_string.
     bindE (if hash_algorithm_string = ''SHA512'' then Inr sha512
            else if hash_algorithm_string = ''SHA1'' then Inr sha1
            else Inl (Unsupported ''hash'')) (\<lambda>hash.
     bindE (attribute ''saltValue'' ev) (\<lambda>salt_value.
     bindE (attribute ''encryptedVerifierHashInput'' ev) (\<lambda>verifier_hash_input.
     bindE (attribute ''encryptedVerifierHashValue'' ev) (\<lambda>verifier_hash_value.
     bindE (attribute ''encryptedKeyValue'' ev) (\<lambda>encrypted_key_value.
     Inr \<lparr> ke_spin_count = spin_count, ke_salt_size = salt_size, ke_block_size = block_size,
           ke_key_bits = key_bits, ke_hash_size = hash_size,
           ke_cipher_algorithm = cipher_algorithm, ke_cipher_chaining = cipher_chaining,
           ke_hash = hash, ke_salt_value = decode_base64 P salt_value,
           ke_verifier_hash_input = decode_base64 P verifier_hash_input,
           ke_verifier_hash_value = decode_base64 P verifier_hash_value,
           ke_encrypted_key_value = decode_base64 P encrypted_key_value \<rparr>)))))))))))))"

text \<open>
  \<open>while (parser.peek() != xml::parser::event_type::end_element)\<close> with its body. The state
  is the parser, \<open>any_password_key\<close> and \<open>result.key_encryptor\<close>.
\<close>

function key_encryptor_loop ::
  "collaborators \<Rightarrow> xml_event list \<Rightarrow> bool \<Rightarrow> agile_key_encryptor
     \<Rightarrow> error + (xml_event list \<times> bool \<times> agile_key_encryptor)" where
  "key_encryptor_loop P evs any_password_key ke =
     (if peek evs \<noteq> end_element_t then
        (case next_expect start_element_t evs of
           Inl e \<Rightarrow> Inl e
         | Inr (ev, evs') \<Rightarrow>
             if namespace_of ev = xmlns_p P \<and> name ev = ''encryptedKey'' then
               (case read_encrypted_key P ev of
                  Inl e \<Rightarrow> Inl e
                | Inr ke' \<Rightarrow>
                    (case next_expect end_element_t evs' of
                       Inl e \<Rightarrow> Inl e
                     | Inr (ev', evs'') \<Rightarrow> key_encryptor_loop P evs'' True ke'))
             else Inl (Unsupported ''other encryption key types not supported''))
      else Inr (evs, any_password_key, ke))"
  by pat_completeness auto
termination
  by (relation "measure (\<lambda>(P, evs, any_password_key, ke). length evs)")
     (auto simp add: next_expect_def split: list.splits if_splits)

declare key_encryptor_loop.simps [simp del]

text \<open>From the construction of the parser to \<open>parser.attribute("uri")\<close>.\<close>

definition agile_preamble ::
  "collaborators \<Rightarrow> xml_event list
     \<Rightarrow> error + (agile_key_data \<times> agile_data_integrity \<times> xml_event list)" where
  "agile_preamble P evs =
     bindE (next_expect_named start_element_t (xmlns P) ''encryption'' evs) (\<lambda>(ev, evs).
     bindE (next_expect_named start_element_t (xmlns P) ''keyData'' evs) (\<lambda>(ev, evs).
     bindE (read_key_data P ev) (\<lambda>kd.
     bindE (next_expect_named end_element_t (xmlns P) ''keyData'' evs) (\<lambda>(ev, evs).
     bindE (next_expect_named start_element_t (xmlns P) ''dataIntegrity'' evs) (\<lambda>(ev, evs).
     bindE (read_data_integrity P ev) (\<lambda>di.
     bindE (next_expect_named end_element_t (xmlns P) ''dataIntegrity'' evs) (\<lambda>(ev, evs).
     bindE (next_expect_named start_element_t (xmlns P) ''keyEncryptors'' evs) (\<lambda>(ev, evs).
     bindE (next_expect_named start_element_t (xmlns P) ''keyEncryptor'' evs) (\<lambda>(ev, evs).
     bindE (attribute ''uri'' ev) (\<lambda>uri.
     Inr (kd, di, evs)))))))))))"

text \<open>
  \<open>result.key_encryptor\<close> before the loop: its vectors and strings are empty, its other
  members have no initialiser. They are read only after an \<open>encryptedKey\<close> element has
  assigned all of them.
\<close>

definition no_key_encryptor :: agile_key_encryptor where
  "no_key_encryptor =
     \<lparr> ke_spin_count = 0, ke_salt_size = 0, ke_block_size = 0, ke_key_bits = 0, ke_hash_size = 0,
       ke_cipher_algorithm = [], ke_cipher_chaining = [], ke_hash = sha1, ke_salt_value = [],
       ke_verifier_hash_input = [], ke_verifier_hash_value = [], ke_encrypted_key_value = [] \<rparr>"

text \<open>The header decoder: everything before \<open>// begin key generation algorithm\<close>.\<close>

definition agile_header :: "collaborators \<Rightarrow> xml_event list \<Rightarrow> error + agile_encryption_info" where
  "agile_header P evs =
     bindE (agile_preamble P evs) (\<lambda>(kd, di, evs).
     bindE (key_encryptor_loop P evs False no_key_encryptor) (\<lambda>(evs, any_password_key, ke).
     if \<not> any_password_key then Inl (Thrown ''no password key in keyEncryptors'') else
     bindE (next_expect_named end_element_t (xmlns P) ''keyEncryptor'' evs) (\<lambda>(ev, evs).
     bindE (next_expect_named end_element_t (xmlns P) ''keyEncryptors'' evs) (\<lambda>(ev, evs).
     bindE (next_expect_named end_element_t (xmlns P) ''encryption'' evs) (\<lambda>(ev, evs).
     Inr \<lparr> key_data = kd, data_integrity = di, key_encryptor = ke \<rparr>)))))"

subsection \<open>\<open>decrypt_xlsx_agile\<close>: verifier and package\<close>

definition ole_segment_length :: nat where
  "ole_segment_length = 4096"

definition input_block_key :: bytes where
  "input_block_key = [0xfe, 0xa7, 0xd2, 0x76, 0x3b, 0x4b, 0x9e, 0x79]"

definition verifier_block_key :: bytes where
  "verifier_block_key = [0xd7, 0xaa, 0x0f, 0x6d, 0x30, 0x61, 0x34, 0x4e]"

definition key_value_block_key :: bytes where
  "key_value_block_key = [0x14, 0x6e, 0x0b, 0xe7, 0xab, 0xac, 0xd0, 0xd6]"

text \<open>The lambda \<open>calculate_block\<close>, which captures \<open>result\<close>.\<close>

definition calculate_block ::
  "collaborators \<Rightarrow> agile_encryption_info \<Rightarrow> bytes \<Rightarrow> bytes \<Rightarrow> bytes \<Rightarrow> bytes" where
  "calculate_block P result raw_key block encrypted =
     (let combined = raw_key @ block;
          key = resize (unat (ke_key_bits (key_encryptor result) div 8)) 0
                  (hash P (ke_hash (key_encryptor result)) combined)
      in aes_cbc_decrypt P encrypted key (ke_salt_value (key_encryptor result)))"

definition calculated_verifier :: "collaborators \<Rightarrow> agile_encryption_info \<Rightarrow> bytes \<Rightarrow> bytes" where
  "calculated_verifier P result h_n =
     (let hash_input = calculate_block P result h_n input_block_key
                         (ke_verifier_hash_input (key_encryptor result))
      in hash P (ke_hash (key_encryptor result)) hash_input)"

definition expected_verifier :: "collaborators \<Rightarrow> agile_encryption_info \<Rightarrow> bytes \<Rightarrow> bytes" where
  "expected_verifier P result h_n =
     resize (length (calculated_verifier P result h_n)) 0
       (calculate_block P result h_n verifier_block_key
          (ke_verifier_hash_value (key_encryptor result)))"

text \<open>
  \<open>for (std::size_t i = 8; i < encrypted_package.size(); i += ole_segment_length)\<close> with
  its body. \<open>segment\<close> is the \<open>std::uint32_t &\<close> at \<open>salt_with_block_key.data() + salt_size\<close>.
\<close>

function agile_segments ::
  "collaborators \<Rightarrow> agile_encryption_info \<Rightarrow> bytes \<Rightarrow> nat \<Rightarrow> bytes \<Rightarrow> nat \<Rightarrow> bytes \<Rightarrow> bytes
     \<Rightarrow> bytes" where
  "agile_segments P result key salt_size encrypted_package i salt_with_block_key decrypted_package =
     (if i < length encrypted_package then
        (let iv = resize 16 0 (hash P (ke_hash (key_encryptor result)) salt_with_block_key);
             current_segment_length = min ole_segment_length (length encrypted_package - i);
             encrypted_segment = take current_segment_length (drop i encrypted_package);
             decrypted_segment = resize current_segment_length 0
                                   (aes_cbc_decrypt P encrypted_segment key iv)
         in agile_segments P result key salt_size encrypted_package (i + ole_segment_length)
              (store_u32 salt_size (load_u32 salt_size salt_with_block_key + 1) salt_with_block_key)
              (decrypted_package @ decrypted_segment))
      else decrypted_package)"
  by pat_completeness auto
termination
  by (relation "measure (\<lambda>(P, result, key, salt_size, encrypted_package, i, rest).
                           length encrypted_package - i)")
     (auto simp add: ole_segment_length_def)

declare agile_segments.simps [simp del]

text \<open>
  From \<open>key_value_block_key\<close> to the \<open>return\<close>. \<open>salt_size + sizeof(std::uint32_t)\<close> is a
  \<open>std::size_t\<close> sum: when it wraps, \<open>segment\<close> refers to memory outside the resized
  buffer. \<open>total_size\<close> is read through \<open>encrypted_package.data()\<close> as eight bytes.
\<close>

definition agile_package ::
  "collaborators \<Rightarrow> agile_encryption_info \<Rightarrow> bytes \<Rightarrow> bytes \<Rightarrow> error + bytes" where
  "agile_package P result h_n encrypted_package =
     (let key = calculate_block P result h_n key_value_block_key
                  (ke_encrypted_key_value (key_encryptor result));
          salt_size = kd_salt_size (key_data result);
          salt_with_block_key = resize (unat (salt_size + 4)) 0 (kd_salt_value (key_data result))
      in if unat (salt_size + 4) \<noteq> unat salt_size + 4 then Inl OutOfBounds else
         bindE (read_int 0 encrypted_package) (\<lambda>(total_size :: 64 word, package_offset).
         let decrypted_package =
               agile_segments P result key (unat salt_size) encrypted_package 8
                 salt_with_block_key []
         in vector_resize P (unat total_size) decrypted_package))"

text \<open>From \<open>static const std::size_t block_size = 8\<close> to the \<open>return\<close>.\<close>

definition agile_verify_and_decrypt ::
  "collaborators \<Rightarrow> agile_encryption_info \<Rightarrow> bytes \<Rightarrow> bytes \<Rightarrow> error + bytes" where
  "agile_verify_and_decrypt P result h_n encrypted_package =
     (if length (calculated_verifier P result h_n) \<noteq> length (expected_verifier P result h_n)
         \<or> calculated_verifier P result h_n \<noteq> expected_verifier P result h_n
      then Inl (Exception ''bad password'')
      else agile_package P result h_n encrypted_package)"

definition decrypt_xlsx_agile ::
  "collaborators \<Rightarrow> bytes \<Rightarrow> 16 word list \<Rightarrow> bytes \<Rightarrow> (error + bytes) option" where
  "decrypt_xlsx_agile P encryption_info password encrypted_package =
     (case agile_header P (xml_events P encryption_info) of
        Inl e \<Rightarrow> Some (Inl e)
      | Inr result \<Rightarrow>
          Option.bind
            (derive_h_n (hash P (ke_hash (key_encryptor result)))
               (ke_salt_value (key_encryptor result)) password
               (ke_spin_count (key_encryptor result)))
            (\<lambda>r. Some (bindE r (\<lambda>h_n.
                   agile_verify_and_decrypt P result h_n encrypted_package))))"

subsection \<open>\<open>decrypt_xlsx\<close>\<close>

text \<open>\<open>file(storage, name)\<close>: the bytes of the stream, or \<open>{}\<close> when the stream failed.\<close>

definition file_bytes :: "(string \<Rightarrow> bytes option) \<Rightarrow> string \<Rightarrow> bytes" where
  "file_bytes storage n = (case storage n of None \<Rightarrow> [] | Some stream \<Rightarrow> stream)"

definition decrypt_xlsx ::
  "collaborators \<Rightarrow> bytes \<Rightarrow> 16 word list \<Rightarrow> (error + bytes) option" where
  "decrypt_xlsx P bytes password =
     (if bytes = [] then Some (Inl (Exception ''empty file'')) else
      case pole_open P bytes of
        None \<Rightarrow> Some (Inl (Exception ''not an ole compound file''))
      | Some storage \<Rightarrow>
          (let encrypted_package = file_bytes storage ''EncryptedPackage'';
               encryption_info = file_bytes storage ''EncryptionInfo''
           in case bindE (read_int 0 encryption_info) (\<lambda>(version_major :: 16 word, index).
                   bindE (read_int index encryption_info) (\<lambda>(version_minor :: 16 word, index).
                   bindE (read_int index encryption_info) (\<lambda>(encryption_flags :: 32 word, index).
                   Inr (version_major, version_minor, encryption_flags, index)))) of
                Inl e \<Rightarrow> Some (Inl e)
              | Inr (version_major, version_minor, encryption_flags, index) \<Rightarrow>
                  (let encryption_info = drop index encryption_info in
                   if version_major = 4 \<and> version_minor = 4 then
                     (if encryption_flags \<noteq> 0x40 then Some (Inl (Exception ''bad header''))
                      else decrypt_xlsx_agile P encryption_info password encrypted_package)
                   else if version_minor \<noteq> 2
                           \<or> (version_major \<noteq> 2 \<and> version_major \<noteq> 3 \<and> version_major \<noteq> 4)
                   then Some (Inl (Exception ''unsupported encryption version''))
                   else if encryption_flags AND 0b00000011 \<noteq> 0
                   then Some (Inl (Exception ''bad header''))
                   else if encryption_flags AND 0b00000100 = 0
                           \<or> encryption_flags AND 0b00010000 \<noteq> 0
                   then Some (Inl (Exception ''extensible encryption is not supported''))
                   else if encryption_flags AND 0b00100000 = 0
                   then Some (Inl (Exception ''not an OOXML document''))
                   else decrypt_xlsx_standard P encryption_info password encrypted_package)))"

text \<open>
  \<open>utf8_to_utf16\<close>: \<open>from_bytes\<close> of the converter, which throws \<open>std::range_error\<close> on a
  string that is not UTF-8, and a copy of its result.
\<close>

definition utf8_to_utf16 :: "collaborators \<Rightarrow> string \<Rightarrow> error + 16 word list" where
  "utf8_to_utf16 P utf8_string =
     (case from_bytes P utf8_string of
        None \<Rightarrow> Inl RangeError
      | Some converted \<Rightarrow> Inr converted)"

text \<open>
  \<open>xlnt::detail::decrypt_xlsx\<close>, the entry point with the password as a \<open>std::string\<close>:
  the argument \<open>utf8_to_utf16(password)\<close> is evaluated before \<open>::decrypt_xlsx\<close> is entered.
\<close>

definition xlnt_detail_decrypt_xlsx ::
  "collaborators \<Rightarrow> bytes \<Rightarrow> string \<Rightarrow> (error + bytes) option" where
  "xlnt_detail_decrypt_xlsx P data password =
     (case utf8_to_utf16 P password of
        Inl e \<Rightarrow> Some (Inl e)
      | Inr converted \<Rightarrow> decrypt_xlsx P data converted)"

subsection \<open>The chain of the specification\<close>

text \<open>
  The key derivation as the specification words it: \<open>H0\<close> is the seed, and round
  \<open>iterator\<close> hashes the iterator, as four little-endian bytes, followed by the digest of
  the round before.
\<close>

fun hash_rounds :: "(bytes \<Rightarrow> bytes) \<Rightarrow> bytes \<Rightarrow> nat \<Rightarrow> bytes" where
  "hash_rounds H h0 0 = h0"
| "hash_rounds H h0 (Suc n) = H (le_bytes (word_of_nat n :: 32 word) @ hash_rounds H h0 n)"

definition spec_derive :: "(bytes \<Rightarrow> bytes) \<Rightarrow> bytes \<Rightarrow> 16 word list \<Rightarrow> nat \<Rightarrow> bytes" where
  "spec_derive H salt password spin_count =
     hash_rounds H (H (salt @ password_bytes password)) spin_count"

subsection \<open>The segments of the specification\<close>

text \<open>
  The agile package as the specification words it: segment \<open>i\<close> is the \<open>i\<close>-th chunk of
  4096 bytes of the ciphertext after the prefix (the last one may be shorter); its
  initialisation vector is \<open>Hash(salt ++ little_endian_u32(i))\<close> truncated to 16 bytes; the
  segment is decrypted with the package key and that vector and truncated to the length
  of the chunk; the segments are appended in order and the whole is truncated to the
  prefix. A ciphertext of \<open>n\<close> bytes has \<open>ceil(n / 4096)\<close> segments.
\<close>

definition spec_segment_iv :: "collaborators \<Rightarrow> hash_algorithm \<Rightarrow> bytes \<Rightarrow> nat \<Rightarrow> bytes" where
  "spec_segment_iv P alg salt i =
     take 16 (hash P alg (salt @ le_bytes (word_of_nat i :: 32 word)))"

definition spec_segment ::
  "collaborators \<Rightarrow> hash_algorithm \<Rightarrow> bytes \<Rightarrow> bytes \<Rightarrow> bytes \<Rightarrow> nat \<Rightarrow> bytes" where
  "spec_segment P alg key salt ciphertext i =
     (let chunk = take 4096 (drop (4096 * i) ciphertext)
      in take (length chunk) (aes_cbc_decrypt P chunk key (spec_segment_iv P alg salt i)))"

definition spec_segments ::
  "collaborators \<Rightarrow> hash_algorithm \<Rightarrow> bytes \<Rightarrow> bytes \<Rightarrow> bytes \<Rightarrow> bytes list" where
  "spec_segments P alg key salt ciphertext =
     map (spec_segment P alg key salt ciphertext) [0..<(length ciphertext + 4095) div 4096]"

definition spec_agile_package ::
  "collaborators \<Rightarrow> hash_algorithm \<Rightarrow> bytes \<Rightarrow> bytes \<Rightarrow> bytes \<Rightarrow> bytes" where
  "spec_agile_package P alg key salt encrypted_package =
     take (unat (le_word (take 8 encrypted_package) :: 64 word))
       (concat (spec_segments P alg key salt (drop 8 encrypted_package)))"

subsection \<open>The keys of the specification\<close>

text \<open>
  The key of the standard scheme as the specification words it: \<open>H_final\<close> is the hash of
  \<open>Hn\<close> followed by the block number 0 as four little-endian bytes; \<open>X1\<close> and \<open>X2\<close> are the
  hashes of \<open>H_final\<close> combined by exclusive or with 64 bytes \<open>0x36\<close> and with 64 bytes
  \<open>0x5C\<close>; the key is \<open>X1\<close> followed by \<open>X2\<close>, truncated to the key length in bytes.
\<close>

definition spec_pad64 :: "byte \<Rightarrow> bytes \<Rightarrow> bytes" where
  "spec_pad64 c h = map (\<lambda>b. c XOR b) (h @ replicate (64 - length h) 0)"

definition spec_standard_key ::
  "collaborators \<Rightarrow> hash_algorithm \<Rightarrow> bytes \<Rightarrow> nat \<Rightarrow> bytes" where
  "spec_standard_key P alg h_n key_bytes =
     (let h_final = hash P alg (h_n @ le_bytes (0 :: 32 word));
          X1 = hash P alg (spec_pad64 0x36 h_final);
          X2 = hash P alg (spec_pad64 0x5c h_final)
      in take key_bytes (X1 @ X2))"

text \<open>
  The agile scheme after the header as the specification words it, with the hash
  algorithm as a parameter: \<open>Hn\<close> is the chain over the salt and the spin count of the key
  encryptor; the key of each purpose is \<open>Hash(Hn ++ block_key)\<close> brought to the key length
  in bytes (truncated, or filled up with zero bytes when the digest is shorter); the
  calculated verifier is the hash of the decrypted verifier hash input, the expected
  verifier the decrypted verifier hash value brought to the length of the calculated
  one; when they differ the password is bad, and otherwise the package is decrypted in
  segments with the key that the third block key unwraps.
\<close>

definition spec_block_key ::
  "collaborators \<Rightarrow> hash_algorithm \<Rightarrow> bytes \<Rightarrow> bytes \<Rightarrow> nat \<Rightarrow> bytes" where
  "spec_block_key P alg h_n block_key key_bytes =
     (let digest = hash P alg (h_n @ block_key)
      in take key_bytes digest @ replicate (key_bytes - length digest) 0)"

definition spec_agile_decrypt ::
  "collaborators \<Rightarrow> hash_algorithm \<Rightarrow> agile_encryption_info \<Rightarrow> 16 word list \<Rightarrow> bytes
     \<Rightarrow> error + bytes" where
  "spec_agile_decrypt P alg result password encrypted_package =
     (let ke = key_encryptor result;
          key_bytes = unat (ke_key_bits ke div 8);
          h_n = spec_derive (hash P alg) (ke_salt_value ke) password (unat (ke_spin_count ke));
          unwrap = (\<lambda>block_key encrypted.
                      aes_cbc_decrypt P encrypted (spec_block_key P alg h_n block_key key_bytes)
                        (ke_salt_value ke));
          calculated = hash P alg (unwrap input_block_key (ke_verifier_hash_input ke));
          decrypted_value = unwrap verifier_block_key (ke_verifier_hash_value ke);
          expected = take (length calculated) decrypted_value
                       @ replicate (length calculated - length decrypted_value) 0
      in if calculated \<noteq> expected then Inl (Exception ''bad password'')
         else Inr (spec_agile_package P alg
                     (unwrap key_value_block_key (ke_encrypted_key_value ke))
                     (kd_salt_value (key_data result)) encrypted_package))"

subsection \<open>The first eight bytes of \<open>EncryptionInfo\<close>\<close>

text \<open>
  The fields the dispatcher routes on, as the specification lays them out: a 2-byte
  major version, a 2-byte minor version and a 4-byte flag word, little-endian.
\<close>

definition version_major_of :: "bytes \<Rightarrow> 16 word" where
  "version_major_of encryption_info = le_word (take 2 encryption_info)"

definition version_minor_of :: "bytes \<Rightarrow> 16 word" where
  "version_minor_of encryption_info = le_word (take 2 (drop 2 encryption_info))"

definition encryption_flags_of :: "bytes \<Rightarrow> 32 word" where
  "encryption_flags_of encryption_info = le_word (take 4 (drop 4 encryption_info))"

subsection \<open>The children of \<open>keyEncryptor\<close>\<close>

text \<open>
  The events of one child that the decoder recognises: the start tag of an
  \<open>encryptedKey\<close> element in the password namespace with its attributes, directly
  followed by the event that closes it. The child is well formed when that event is an
  end tag and the attributes are the ones the decoder reads.
\<close>

definition encrypted_key_element ::
  "collaborators \<Rightarrow> (string \<times> string) list \<times> xml_event \<Rightarrow> xml_event list" where
  "encrypted_key_element P kid = [start_element (xmlns_p P) ''encryptedKey'' (fst kid), snd kid]"

definition well_formed_key :: "collaborators \<Rightarrow> (string \<times> string) list \<times> xml_event \<Rightarrow> bool" where
  "well_formed_key P kid \<longleftrightarrow>
     type_of (snd kid) = end_element_t \<and>
     (case read_encrypted_key P (start_element (xmlns_p P) ''encryptedKey'' (fst kid)) of
        Inl e \<Rightarrow> False | Inr ke \<Rightarrow> True)"

subsection \<open>What is assumed of the digests\<close>

text \<open>
  Modelled from the spec: the SHA primitives are external collaborators with the
  interfaces \<open>sha1(bytes) -> 20 bytes\<close> and \<open>sha512(bytes) -> 64 bytes\<close>.
\<close>

definition digest_lengths :: "collaborators \<Rightarrow> bool" where
  "digest_lengths P \<longleftrightarrow>
     (\<forall>x. length (prim_sha1 P x) = 20) \<and> (\<forall>x. length (prim_sha512 P x) = 64)"

text \<open>
  What is assumed of \<open>aes_cbc_decrypt\<close>, whose code is in another file: the plaintext it
  returns is not shorter than the ciphertext it was given.
\<close>

definition cbc_covers :: "collaborators \<Rightarrow> bool" where
  "cbc_covers P \<longleftrightarrow>
     (\<forall>ciphertext key iv. length ciphertext \<le> length (aes_cbc_decrypt P ciphertext key iv))"

definition digest_size :: "hash_algorithm \<Rightarrow> nat" where
  "digest_size alg = (case alg of sha1 \<Rightarrow> 20 | sha512 \<Rightarrow> 64)"

subsection \<open>Sample inputs\<close>

text \<open>
  Stand-ins for the collaborators, small enough to evaluate: digests of the right
  length that depend on their input and differ between the two algorithms, ciphers
  that depend on key and initialisation vector, decimal numbers for \<open>std::size_t\<close>
  attributes, an allocator that has 4096 bytes to give.
\<close>

definition sample_digest :: "nat \<Rightarrow> bytes \<Rightarrow> bytes" where
  "sample_digest n input = replicate n (sum_list input + word_of_nat (length input))"

definition sample_size_t :: "string \<Rightarrow> 64 word option" where
  "sample_size_t v =
     (if v \<noteq> [] \<and> (\<forall>c \<in> set v. (48 :: nat) \<le> of_char c \<and> of_char c \<le> (57 :: nat))
      then Some (word_of_nat (foldl (\<lambda>n c. 10 * n + (of_char c - 48)) 0 v))
      else None)"

text \<open>
  The stand-in for the converter: ASCII is converted, a string with any other byte is
  refused (as the real converter refuses the byte \<open>0xFF\<close>, which no UTF-8 text contains).
\<close>

definition sample_from_bytes :: "string \<Rightarrow> 16 word list option" where
  "sample_from_bytes utf8_string =
     (if \<forall>c \<in> set utf8_string. (of_char c :: nat) < 128
      then Some (map (\<lambda>c. word_of_nat (of_char c)) utf8_string)
      else None)"

definition sample_collaborators :: collaborators where
  "sample_collaborators =
     \<lparr> prim_sha1 = sample_digest 20,
       prim_sha512 = (\<lambda>input. sample_digest 64 (0x5A # input)),
       aes_ecb_decrypt = (\<lambda>ciphertext key. map (\<lambda>b. b XOR sum_list key) ciphertext),
       aes_cbc_decrypt = (\<lambda>ciphertext key iv. map (\<lambda>b. b XOR sum_list key XOR sum_list iv) ciphertext),
       decode_base64 = c_str,
       pole_open = (\<lambda>bytes. None),
       xml_events = (\<lambda>bytes. []),
       parse_size_t = sample_size_t,
       xmlns = ''http://schemas.microsoft.com/office/2006/encryption'',
       xmlns_p = ''http://schemas.microsoft.com/office/2006/keyEncryptor/password'',
       from_bytes = sample_from_bytes,
       allocates = (\<lambda>n. n \<le> 4096) \<rparr>"

text \<open>
  A standard header with every field well-formed: AES-128, the provider name of the
  format, a 16-byte salt, the 16-byte verifier input and a 32-byte verifier hash. The
  hash algorithm id is the parameter.
\<close>

definition utf16le :: "string \<Rightarrow> bytes" where
  "utf16le s = concat (map (\<lambda>c. [word_of_nat (of_char c), 0]) s)"

definition sample_standard_header :: "32 word \<Rightarrow> bytes" where
  "sample_standard_header alg_id_hash =
     le_bytes (140 :: 32 word) @ le_bytes (0x24 :: 32 word) @ le_bytes (0 :: 32 word)
     @ le_bytes (0x660E :: 32 word) @ le_bytes alg_id_hash @ le_bytes (128 :: 32 word)
     @ le_bytes (0x18 :: 32 word) @ le_bytes (0 :: 32 word) @ le_bytes (0 :: 32 word)
     @ utf16le ''Microsoft Enhanced RSA and AES Cryptographic Provider'' @ [0, 0]
     @ le_bytes (16 :: 32 word) @ replicate 16 1 @ replicate 16 2
     @ le_bytes (32 :: 32 word) @ replicate 32 3"

text \<open>
  The events of a well-formed agile header with one password key encryptor, spin count
  2. The \<open>hashAlgorithm\<close> and \<open>saltSize\<close> attributes of \<open>keyData\<close> and the encrypted
  verifier hash value are the parameters. With the stand-in ciphers, the verifier hash
  value of twenty bytes \<open>0xD0\<close> is the one that matches the password \<open>pw\<close>. The
  stand-in tokenizer yields these events for the empty buffer, and the same events with
  \<open>SHA1\<close> as the \<open>hashAlgorithm\<close> of \<open>keyData\<close> for any other buffer.
\<close>

definition sample_agile_events :: "string \<Rightarrow> string \<Rightarrow> string \<Rightarrow> xml_event list" where
  "sample_agile_events hash_name salt_size_text verifier_hash_value =
     [start_element (xmlns sample_collaborators) ''encryption'' [],
      start_element (xmlns sample_collaborators) ''keyData''
        [(''saltSize'', salt_size_text), (''blockSize'', ''16''), (''keyBits'', ''128''),
         (''hashSize'', ''20''), (''cipherAlgorithm'', ''AES''),
         (''cipherChaining'', ''ChainingModeCBC''), (''hashAlgorithm'', hash_name),
         (''saltValue'', ''0123456789abcdef'')],
      end_element (xmlns sample_collaborators) ''keyData'',
      start_element (xmlns sample_collaborators) ''dataIntegrity''
        [(''encryptedHmacKey'', ''hmac-key''), (''encryptedHmacValue'', ''hmac-value'')],
      end_element (xmlns sample_collaborators) ''dataIntegrity'',
      start_element (xmlns sample_collaborators) ''keyEncryptors'' [],
      start_element (xmlns sample_collaborators) ''keyEncryptor''
        [(''uri'', xmlns_p sample_collaborators)],
      start_element (xmlns_p sample_collaborators) ''encryptedKey''
        [(''spinCount'', ''2''), (''saltSize'', ''16''), (''blockSize'', ''16''),
         (''keyBits'', ''128''), (''hashSize'', ''20''), (''cipherAlgorithm'', ''AES''),
         (''cipherChaining'', ''ChainingModeCBC''), (''hashAlgorithm'', ''SHA1''),
         (''saltValue'', ''fedcba9876543210''),
         (''encryptedVerifierHashInput'', ''verifier-input-0''),
         (''encryptedVerifierHashValue'', verifier_hash_value),
         (''encryptedKeyValue'', ''encrypted-key-00'')],
      end_element (xmlns_p sample_collaborators) ''encryptedKey'',
      end_element (xmlns sample_collaborators) ''keyEncryptor'',
      end_element (xmlns sample_collaborators) ''keyEncryptors'',
      end_element (xmlns sample_collaborators) ''encryption'']"

definition sample_agile :: "string \<Rightarrow> string \<Rightarrow> string \<Rightarrow> collaborators" where
  "sample_agile hash_name salt_size_text verifier_hash_value =
     sample_collaborators
       \<lparr>xml_events := \<lambda>bytes.
          sample_agile_events (if bytes = [] then hash_name else ''SHA1'') salt_size_text
            verifier_hash_value\<rparr>"

text \<open>What the header decoder makes of these events.\<close>

definition sample_agile_result :: "string \<Rightarrow> 64 word \<Rightarrow> string \<Rightarrow> agile_encryption_info" where
  "sample_agile_result hash_name salt_size verifier_hash_value =
     \<lparr> key_data = \<lparr> kd_salt_size = salt_size, kd_block_size = 16, kd_key_bits = 128,
                     kd_hash_size = 20, kd_cipher_algorithm = ''AES'',
                     kd_cipher_chaining = ''ChainingModeCBC'', kd_hash_algorithm = hash_name,
                     kd_salt_value = c_str ''0123456789abcdef'' \<rparr>,
       data_integrity = \<lparr> hmac_key = c_str ''hmac-key'', hmac_value = c_str ''hmac-value'' \<rparr>,
       key_encryptor = \<lparr> ke_spin_count = 2, ke_salt_size = 16, ke_block_size = 16,
                          ke_key_bits = 128, ke_hash_size = 20, ke_cipher_algorithm = ''AES'',
                          ke_cipher_chaining = ''ChainingModeCBC'', ke_hash = sha1,
                          ke_salt_value = c_str ''fedcba9876543210'',
                          ke_verifier_hash_input = c_str ''verifier-input-0'',
                          ke_verifier_hash_value = c_str verifier_hash_value,
                          ke_encrypted_key_value = c_str ''encrypted-key-00'' \<rparr> \<rparr>"

definition sample_password :: "16 word list" where
  "sample_password = [0x70, 0x77]"

text \<open>An \<open>EncryptedPackage\<close> stream: the eight bytes of the length, then \<open>n\<close> bytes.\<close>

definition sample_package :: "64 word \<Rightarrow> nat \<Rightarrow> bytes" where
  "sample_package decrypted_size n = le_bytes decrypted_size @ replicate n 7"

text \<open>
  A compound file with the two streams, whatever its bytes: the \<open>EncryptionInfo\<close> stream
  starts with the given versions and flags.
\<close>

definition sample_storage :: "bytes \<Rightarrow> bytes \<Rightarrow> string \<Rightarrow> bytes option" where
  "sample_storage encryption_info encrypted_package n =
     (if n = ''EncryptionInfo'' then Some encryption_info
      else if n = ''EncryptedPackage'' then Some encrypted_package
      else None)"

definition sample_info :: "16 word \<Rightarrow> 16 word \<Rightarrow> 32 word \<Rightarrow> bytes \<Rightarrow> bytes" where
  "sample_info major minor flags rest = le_bytes major @ le_bytes minor @ le_bytes flags @ rest"

definition sample_container :: "bytes \<Rightarrow> bytes \<Rightarrow> collaborators" where
  "sample_container encryption_info encrypted_package =
     (sample_agile ''SHA512'' ''16'' (replicate 20 (CHR 0xD0)))
       \<lparr>pole_open := \<lambda>bytes. Some (sample_storage encryption_info encrypted_package)\<rparr>"

text \<open>
  A key encryptor of the certificate kind, and the sample header with such a child put
  at a given position among the events, or with its password child taken out.
\<close>

definition sample_certificate_key :: "xml_event list" where
  "sample_certificate_key =
     [start_element ''http://schemas.microsoft.com/office/2006/keyEncryptor/certificate''
        ''encryptedKey'' [(''encryptedKeyValue'', ''certificate-key'')],
      end_element ''http://schemas.microsoft.com/office/2006/keyEncryptor/certificate''
        ''encryptedKey'']"

definition sample_events_with_certificate :: "nat \<Rightarrow> xml_event list" where
  "sample_events_with_certificate at =
     take at (sample_agile_events ''SHA512'' ''16'' ''verifier-hash-value-'')
     @ sample_certificate_key
     @ drop at (sample_agile_events ''SHA512'' ''16'' ''verifier-hash-value-'')"

definition sample_events_without_key :: "xml_event list" where
  "sample_events_without_key =
     take 7 (sample_agile_events ''SHA512'' ''16'' ''verifier-hash-value-'')
     @ drop 9 (sample_agile_events ''SHA512'' ''16'' ''verifier-hash-value-'')"

section \<open>Properties\<close>

subsection \<open>Integers in buffers\<close>

lemma length_le_bytes32 [simp]: "length (le_bytes (w :: 32 word)) = 4"
  by (simp add: le_bytes_def)

lemma le_bytes32:
  "le_bytes (w :: 32 word) =
     [ucast w, ucast (drop_bit 8 w), ucast (drop_bit 16 w), ucast (drop_bit 24 w)]"
  by (simp add: le_bytes_def upt_rec)

lemma le_word_le_bytes32 [simp]: "le_word (le_bytes (w :: 32 word)) = w"
  apply (simp add: le_bytes32 le_word_def)
  apply (rule bit_word_eqI)
  subgoal for n
    by (cases "n < 8"; cases "n < 16"; cases "n < 24") (auto simp add: bit_simps)
  done

lemma load_u32_append [simp]:
  "length s = at \<Longrightarrow> load_u32 at (s @ le_bytes (w :: 32 word) @ rest) = w"
  by (simp add: load_u32_def)

lemma store_u32_append [simp]:
  "length s = at \<Longrightarrow>
   store_u32 at w (s @ le_bytes (w' :: 32 word) @ rest) = s @ le_bytes w @ rest"
  by (simp add: store_u32_def)

lemma get_iterator_append [simp]: "get_iterator (le_bytes (w :: 32 word) @ rest) = w"
  using load_u32_append [of "[]" 0 w rest] by (simp add: get_iterator_def)

lemma set_iterator_append [simp]:
  "set_iterator w (le_bytes (w' :: 32 word) @ rest) = le_bytes w @ rest"
  using store_u32_append [of "[]" 0 w w' rest] by (simp add: set_iterator_def)

lemma unat_ucast_32_64: "unat (ucast (w :: 32 word) :: 64 word) = unat w"
proof -
  have "unat w < 2 ^ 32" using unsigned_less [of w, where 'a = nat] by simp
  then have "unat w < 2 ^ 64" by simp
  then show ?thesis
    by (simp add: unsigned_ucast_eq take_bit_nat_eq_self)
qed

lemma ucast_32_64_less:
  assumes "2 ^ 32 \<le> unat (n :: 64 word)"
  shows "(ucast (w :: 32 word) :: 64 word) < n"
proof -
  have "unat w < 2 ^ 32" using unsigned_less [of w, where 'a = nat] by simp
  then show ?thesis unfolding word_less_nat_alt unat_ucast_32_64 using assms by linarith
qed

subsection \<open>The key derivation loop\<close>

declare spin_loop.simps [code]

lemma length_hash_rounds:
  assumes "\<And>x. length (H x) = d" and "length h0 = d"
  shows "length (hash_rounds H h0 k) = d"
  using assms by (cases k) simp_all

text \<open>
  The loop invariant: when the counter is \<open>k\<close>, the buffer holds \<open>k\<close> in its first four
  bytes and the digest of round \<open>k\<close> behind them.
\<close>

lemma spin_loop_rounds:
  assumes d: "\<And>x. length (H x) = d" and h0: "length h0 = d"
    and n: "unat spin_count < 2 ^ 32"
  shows "k \<le> unat spin_count \<Longrightarrow>
    spin_loop H spin_count (le_bytes (word_of_nat k :: 32 word) @ hash_rounds H h0 k) h_n =
      Some (Inr (if k = unat spin_count then h_n else hash_rounds H h0 (unat spin_count)))"
proof (induction "unat spin_count - k" arbitrary: k h_n)
  case 0
  then have k: "k = unat spin_count" by simp
  have "k < 2 ^ 32" using n k by simp
  then have "unat (ucast (word_of_nat k :: 32 word) :: 64 word) = k"
    by (simp add: unat_ucast_32_64 unat_of_nat)
  then have "\<not> (ucast (word_of_nat k :: 32 word) :: 64 word) < spin_count"
    unfolding word_less_nat_alt using k by simp
  then show ?case
    by (subst spin_loop.simps) (simp add: k)
next
  case (Suc m)
  then have k: "k < unat spin_count" by simp
  have "k < 2 ^ 32" using n k by simp
  then have "unat (ucast (word_of_nat k :: 32 word) :: 64 word) = k"
    by (simp add: unat_ucast_32_64 unat_of_nat)
  then have lt: "(ucast (word_of_nat k :: 32 word) :: 64 word) < spin_count"
    unfolding word_less_nat_alt using k by simp
  let ?buf = "le_bytes (word_of_nat k :: 32 word) @ hash_rounds H h0 k"
  have len: "length (hash_rounds H h0 k) = d" by (rule length_hash_rounds [OF d h0])
  have cp: "copy_into (H ?buf) 4 ?buf = Inr (le_bytes (word_of_nat k :: 32 word) @ H ?buf)"
    by (simp add: copy_into_def d len)
  have step: "set_iterator (get_iterator (le_bytes (word_of_nat k :: 32 word) @ H ?buf) + 1)
                (le_bytes (word_of_nat k :: 32 word) @ H ?buf)
              = le_bytes (word_of_nat (Suc k) :: 32 word) @ hash_rounds H h0 (Suc k)"
    by (simp add: add.commute)
  have IH: "spin_loop H spin_count
              (le_bytes (word_of_nat (Suc k) :: 32 word) @ hash_rounds H h0 (Suc k)) (H ?buf) =
      Some (Inr (if Suc k = unat spin_count then H ?buf else hash_rounds H h0 (unat spin_count)))"
    using Suc(1) [of "Suc k" "H ?buf"] Suc(2) k by simp
  have unfold: "spin_loop H spin_count ?buf h_n =
      spin_loop H spin_count
        (set_iterator (get_iterator (le_bytes (word_of_nat k :: 32 word) @ H ?buf) + 1)
           (le_bytes (word_of_nat k :: 32 word) @ H ?buf)) (H ?buf)"
    by (subst spin_loop.simps) (simp add: lt cp)
  show ?case
    unfolding unfold step IH using k
    by (auto simp add: hash_rounds.simps(2) [symmetric] simp del: hash_rounds.simps)
qed

lemma derive_h_n_rounds:
  assumes d: "\<And>x. length (H x) = d" and n: "unat spin_count < 2 ^ 32"
  shows "derive_h_n H salt password spin_count =
           Some (Inr (if spin_count = 0 then []
                      else spec_derive H salt password (unat spin_count)))"
proof -
  let ?h0 = "H (salt @ password_bytes password)"
  have z: "replicate 4 (0 :: byte) = le_bytes (0 :: 32 word)"
    by (simp add: le_bytes32 eval_nat_numeral)
  have "spin_loop H spin_count (le_bytes (word_of_nat 0 :: 32 word) @ hash_rounds H ?h0 0) [] =
      Some (Inr (if 0 = unat spin_count then [] else hash_rounds H ?h0 (unat spin_count)))"
    by (rule spin_loop_rounds [OF d _ n]) (simp_all add: d)
  then show ?thesis
    by (simp add: derive_h_n_def spec_derive_def z unat_eq_0 eq_commute [of 0] Let_def del: replicate.simps)
qed

text \<open>
  With a spin count that does not fit in 32 bits the loop condition holds for every
  value of the counter: a call that ends at all ends in the fault of \<open>copy_into\<close>, and with
  digests of one length there is no fault.
\<close>

lemma spin_loop_large_no_value:
  assumes "spin_loop H spin_count buf h_n = Some r" and "2 ^ 32 \<le> unat spin_count"
  shows "\<exists>e. r = Inl e"
proof -
  have "2 ^ 32 \<le> unat spin_count \<longrightarrow> (\<exists>e. r = Inl e)"
  proof (rule spin_loop.raw_induct [where P = "\<lambda>H spin_count buf h_n r.
           2 ^ 32 \<le> unat spin_count \<longrightarrow> (\<exists>e. r = Inl e)", OF _ assms(1)])
    fix f H spin_count buf h_n r
    assume IH: "\<And>H spin_count buf h_n r. f H spin_count buf h_n = Some r \<Longrightarrow>
                  2 ^ 32 \<le> unat spin_count \<longrightarrow> (\<exists>e. r = Inl e)"
      and eq: "(if (ucast (get_iterator buf) :: 64 word) < spin_count
         then case copy_into (H buf) 4 buf of
           Inl e \<Rightarrow> Some (Inl e)
           | Inr b \<Rightarrow> f H spin_count (set_iterator (get_iterator b + 1) b) (H buf)
         else Some (Inr h_n)) = Some r"
    show "2 ^ 32 \<le> unat spin_count \<longrightarrow> (\<exists>e. r = Inl e)"
    proof
      assume big: "2 ^ 32 \<le> unat spin_count"
      then have "(ucast (get_iterator buf) :: 64 word) < spin_count"
        by (rule ucast_32_64_less)
      with eq IH big show "\<exists>e. r = Inl e"
        by (auto split: sum.splits)
    qed
  qed
  with assms(2) show ?thesis by simp
qed

lemma spin_loop_no_fault:
  assumes "spin_loop H spin_count buf h_n = Some r"
    and "\<forall>x. length (H x) = d" and "length buf = 4 + d"
  shows "\<exists>v. r = Inr v"
proof -
  have "(\<forall>x. length (H x) = d) \<and> length buf = 4 + d \<longrightarrow> (\<exists>v. r = Inr v)"
  proof (rule spin_loop.raw_induct [where P = "\<lambda>H spin_count buf h_n r.
       (\<forall>x. length (H x) = d) \<and> length buf = 4 + d \<longrightarrow> (\<exists>v. r = Inr v)", OF _ assms(1)])
    fix f H spin_count buf h_n r
    assume IH: "\<And>H spin_count buf h_n r. f H spin_count buf h_n = Some r \<Longrightarrow>
                  (\<forall>x. length (H x) = d) \<and> length buf = 4 + d \<longrightarrow> (\<exists>v. r = Inr v)"
      and eq: "(if (ucast (get_iterator buf) :: 64 word) < spin_count
         then case copy_into (H buf) 4 buf of
           Inl e \<Rightarrow> Some (Inl e)
           | Inr b \<Rightarrow> f H spin_count (set_iterator (get_iterator b + 1) b) (H buf)
         else Some (Inr h_n)) = Some r"
    show "(\<forall>x. length (H x) = d) \<and> length buf = 4 + d \<longrightarrow> (\<exists>v. r = Inr v)"
    proof
      assume a: "(\<forall>x. length (H x) = d) \<and> length buf = 4 + d"
      then have cp: "copy_into (H buf) 4 buf = Inr (take 4 buf @ H buf)"
        by (simp add: copy_into_def)
      have len: "length (set_iterator (get_iterator (take 4 buf @ H buf) + 1)
                   (take 4 buf @ H buf)) = 4 + d"
        using a by (simp add: set_iterator_def store_u32_def)
      show "\<exists>v. r = Inr v"
      proof (cases "(ucast (get_iterator buf) :: 64 word) < spin_count")
        case True
        with eq cp have "f H spin_count
            (set_iterator (get_iterator (take 4 buf @ H buf) + 1) (take 4 buf @ H buf)) (H buf)
              = Some r"
          by simp
        from IH [OF this] a len show ?thesis by simp
      next
        case False
        with eq show ?thesis by auto
      qed
    qed
  qed
  with assms(2,3) show ?thesis by simp
qed

lemma spin_loop_diverges:
  assumes big: "2 ^ 32 \<le> unat spin_count" and d: "\<forall>x. length (H x) = d"
    and len: "length buf = 4 + d"
  shows "spin_loop H spin_count buf h_n = None"
proof (cases "spin_loop H spin_count buf h_n")
  case None
  then show ?thesis .
next
  case (Some r)
  from spin_loop_large_no_value [OF Some big] spin_loop_no_fault [OF Some d len]
  show ?thesis by auto
qed

lemma derive_h_n_diverges:
  assumes big: "2 ^ 32 \<le> unat spin_count" and d: "\<forall>x. length (H x) = d"
  shows "derive_h_n H salt password spin_count = None"
  unfolding derive_h_n_def Let_def
  by (rule spin_loop_diverges [OF big d]) (simp add: set_iterator_def store_u32_def d)


lemma length_hash: "digest_lengths P \<Longrightarrow> length (hash P alg x) = digest_size alg"
  by (cases alg) (simp_all add: digest_lengths_def digest_size_def)

lemma digest_lengths_sample [simp]: "digest_lengths sample_collaborators"
  by (simp add: digest_lengths_def sample_collaborators_def sample_digest_def)

text \<open>
  C5, as amended. For every password, salt and hash kind (with digests of the length of
  the kind) and every spin count below \<open>2^32\<close>, the loop of the source returns, and
  what it returns for a spin count that is not zero is the chain of the specification:
  \<open>H0 = Hash(salt ++ password bytes)\<close>, then for \<open>iterator\<close> from \<open>0\<close> to
  \<open>spin_count - 1\<close> the hash of the four little-endian bytes of \<open>iterator\<close> followed by
  the digest of the round before. With spin count zero no round runs and \<open>h_n\<close> stays
  the empty vector.
\<close>

theorem key_derivation_chain:
  assumes "digest_lengths P" and "unat spin_count < 2 ^ 32"
  shows "derive_h_n (hash P alg) salt password spin_count =
           Some (Inr (if spin_count = 0 then []
                      else spec_derive (hash P alg) salt password (unat spin_count)))"
  by (rule derive_h_n_rounds [OF length_hash [OF assms(1)] assms(2)])

theorem key_derivation_chain_witness:
  "digest_lengths sample_collaborators \<and> unat (3 :: 64 word) < 2 ^ 32 \<and>
   derive_h_n (hash sample_collaborators sha1) [1, 2, 3] [0x70, 0x77] 3 =
     Some (Inr (spec_derive (hash sample_collaborators sha1) [1, 2, 3] [0x70, 0x77] 3))"
  using key_derivation_chain [of sample_collaborators 3 sha1 "[1, 2, 3]" "[0x70, 0x77]"]
  by simp

text \<open>
  C5 as stated, for every spin count, fails at both ends of the range. A spin count of
  \<open>2^32\<close>, which the \<open>std::size_t\<close> read from the agile header can hold, is never
  reached by the 32-bit iterator: the loop does not return. With spin count \<open>0\<close> the
  value handed on is the empty vector, where the chain of the specification is \<open>H0\<close>.
\<close>

theorem key_derivation_chain_counterexample:
  "derive_h_n (hash sample_collaborators sha1) [1, 2, 3] [0x70, 0x77] 0x100000000 = None
   \<and> derive_h_n (hash sample_collaborators sha1) [1, 2, 3] [0x70, 0x77] 0 = Some (Inr [])
   \<and> spec_derive (hash sample_collaborators sha1) [1, 2, 3] [0x70, 0x77] 0 = replicate 20 0xF4"
proof (intro conjI)
  show "derive_h_n (hash sample_collaborators sha1) [1, 2, 3] [0x70, 0x77] 0x100000000 = None"
    by (rule derive_h_n_diverges [where d = 20])
       (simp_all add: sample_collaborators_def sample_digest_def)
  show "derive_h_n (hash sample_collaborators sha1) [1, 2, 3] [0x70, 0x77] 0 = Some (Inr [])"
    by code_simp
  show "spec_derive (hash sample_collaborators sha1) [1, 2, 3] [0x70, 0x77] 0 = replicate 20 0xF4"
    by code_simp
qed

subsection \<open>The standard header\<close>

lemma standard_header_truncated:
  "standard_header [] = Inl OutOfBounds"
  "standard_header (take 100 (sample_standard_header 0x8004)) = Inl OutOfBounds"
  by code_simp+

text \<open>
  C1. The claim asks for a corrupt-header error on every header that is too short. The
  source reads each field with no check: on the empty buffer that \<open>file\<close> returns for an
  absent stream, and on a standard header cut inside its provider name, the read is
  outside the buffer, and no exception of the library is raised.
\<close>

theorem truncated_header_is_read_out_of_bounds:
  "decrypt_xlsx_standard P [] password encrypted_package = Some (Inl OutOfBounds)
   \<and> decrypt_xlsx_standard P (take 100 (sample_standard_header 0x8004)) password
         encrypted_package = Some (Inl OutOfBounds)
   \<and> decrypt_xlsx (P\<lparr>pole_open := \<lambda>bytes. Some (\<lambda>n. None)\<rparr>) [0xD0] password
         = Some (Inl OutOfBounds)"
  by (simp add: decrypt_xlsx_standard_def standard_header_truncated decrypt_xlsx_def
        file_bytes_def read_int_def bindE_def)

theorem truncated_header_is_read_out_of_bounds_witness:
  "decrypt_xlsx_standard sample_collaborators [] [0x70] [] = Some (Inl OutOfBounds)
   \<and> decrypt_xlsx_standard sample_collaborators (take 100 (sample_standard_header 0x8004)) [0x70]
         [] = Some (Inl OutOfBounds)
   \<and> decrypt_xlsx (sample_collaborators\<lparr>pole_open := \<lambda>bytes. Some (\<lambda>n. None)\<rparr>) [0xD0] [0x70]
         = Some (Inl OutOfBounds)"
  by (rule truncated_header_is_read_out_of_bounds)

text \<open>
  C2. The claim asks for an unsupported-hash error on every hash id other than
  \<open>0x8004\<close> and \<open>0\<close>. The test of the source, \<open>alg_id_hash != 0x8004 && alg_id_hash == 0\<close>,
  holds for the id \<open>0\<close> alone: a header whose id is \<open>0x8003\<close> is decoded, and the one
  whose id is \<open>0\<close> is refused.
\<close>

theorem hash_id_test_is_inverted:
  "standard_header (sample_standard_header 0x8003) =
     Inr (\<lparr>std_spin_count = 50000, std_key_bits = 128, std_key_bytes = 16,
           std_cipher = aes, std_hash = sha1\<rparr>,
          replicate 16 1, replicate 16 2, replicate 32 3)
   \<and> standard_header (sample_standard_header 0) = Inl (Exception ''invalid hash algorithm'')"
  by (rule conjI; code_simp)

subsection \<open>The sample inputs, evaluated\<close>

lemma sample_agile_header_16:
  "agile_header (sample_agile h ''16'' v) (xml_events (sample_agile h ''16'' v) [])
     = Inr (sample_agile_result h 16 v)"
  by code_simp

lemma sample_agile_header_0:
  "agile_header (sample_agile h ''0'' v) (xml_events (sample_agile h ''0'' v) [])
     = Inr (sample_agile_result h 0 v)"
  by code_simp

lemma sample_agile_h_n:
  "derive_h_n (hash (sample_agile h s v) sha1) (c_str ''fedcba9876543210'') sample_password 2
     = Some (Inr (replicate 20 0x49))"
  by code_simp

lemma sample_calculated_verifier:
  "calculated_verifier (sample_agile h s v) (sample_agile_result h n v) (replicate 20 0x49)
     = replicate 20 0xB2"
  by code_simp

lemma sample_expected_verifier:
  "expected_verifier (sample_agile h s (replicate 20 c)) (sample_agile_result h n (replicate 20 c)) (replicate 20 0x49)
     = replicate 20 (word_of_nat (of_char c) XOR 0x62)"
  by code_simp

lemma sample_agile_h_n_fields:
  "derive_h_n (hash (sample_agile h s v) (ke_hash (key_encryptor (sample_agile_result h n v))))
     (ke_salt_value (key_encryptor (sample_agile_result h n v))) sample_password
     (ke_spin_count (key_encryptor (sample_agile_result h n v)))
   = Some (Inr (replicate 20 0x49))"
  using sample_agile_h_n [of h s v] by (simp add: sample_agile_result_def)

lemma digest_lengths_sample_agile [simp]: "digest_lengths (sample_agile h s v)"
  by (simp add: digest_lengths_def sample_agile_def sample_collaborators_def sample_digest_def)

lemma sample_agile_verified:
  "calculated_verifier (sample_agile h s (replicate 20 (CHR 0xD0)))
     (sample_agile_result h n (replicate 20 (CHR 0xD0))) (replicate 20 0x49)
   = expected_verifier (sample_agile h s (replicate 20 (CHR 0xD0)))
     (sample_agile_result h n (replicate 20 (CHR 0xD0))) (replicate 20 0x49)"
  by (simp add: sample_calculated_verifier sample_expected_verifier)

lemma sample_standard_header_ok:
  "standard_header (sample_standard_header 0x8004) =
     Inr (\<lparr>std_spin_count = 50000, std_key_bits = 128, std_key_bytes = 16,
           std_cipher = aes, std_hash = sha1\<rparr>,
          replicate 16 1, replicate 16 2, replicate 32 3)"
  by code_simp

lemma sample_package_prefix:
  "length (sample_package 50 10) = 18"
  "unat (le_word (take 8 (sample_package 50 10)) :: 64 word) = 50"
  by code_simp+

subsection \<open>The two paths after the header\<close>

lemma standard_header_info:
  assumes "standard_header b = Inr (i, salt, vhi, vhv)"
  shows "std_spin_count i = 50000 \<and> std_hash i = sha1 \<and> std_cipher i = aes
         \<and> std_key_bytes i = std_key_bits i div 8"
  using assms
  by (auto simp add: standard_header_def bindE_def Let_def split: sum.splits if_splits prod.splits)

lemma decrypt_xlsx_agile_unfold:
  assumes "agile_header P (xml_events P encryption_info) = Inr result"
    and "derive_h_n (hash P (ke_hash (key_encryptor result)))
           (ke_salt_value (key_encryptor result)) password
           (ke_spin_count (key_encryptor result)) = Some (Inr h_n)"
  shows "decrypt_xlsx_agile P encryption_info password encrypted_package =
           Some (agile_verify_and_decrypt P result h_n encrypted_package)"
  using assms by (simp add: decrypt_xlsx_agile_def bindE_def)

lemma read_int_64_prefix:
  "8 \<le> length v \<Longrightarrow> (read_int 0 v :: error + (64 word \<times> nat)) = Inr (le_word (take 8 v), 8)"
  by (simp add: read_int_def)

lemma resize_cases:
  "resize n x v = (if n \<le> length v then take n v else v @ replicate (n - length v) x)"
  by (simp add: resize_def)

lemma length_resize [simp]: "length (resize n x v) = n"
  by (simp add: resize_def)

lemma vector_resize_cut: "n \<le> length v \<Longrightarrow> vector_resize P n v = Inr (take n v)"
  by (simp add: vector_resize_def)

lemma vector_resize_fill:
  "length v < n \<Longrightarrow> n \<le> max_size \<Longrightarrow> allocates P n \<Longrightarrow>
   vector_resize P n v = Inr (v @ replicate (n - length v) 0)"
  by (simp add: vector_resize_def)

lemma vector_resize_length_error:
  "length v < n \<Longrightarrow> max_size < n \<Longrightarrow> vector_resize P n v = Inl LengthError"
  by (simp add: vector_resize_def)

lemma vector_resize_no_exception: "vector_resize P n v \<noteq> Inl (Exception msg)"
  by (simp add: vector_resize_def)

text \<open>
  The key of the standard path is the one of the specification, for a digest of 20
  bytes and a key of at most 40.
\<close>

lemma standard_key_value:
  assumes dl: "digest_lengths P" and h: "std_hash i = sha1"
    and kb: "unat (std_key_bytes i) \<le> 40"
  shows "standard_key P i h_n = Inr (spec_standard_key P sha1 h_n (unat (std_key_bytes i)))"
proof -
  have len: "length (prim_sha1 P x) = 20" for x
    using dl by (simp add: digest_lengths_def)
  show ?thesis
    using kb
    by (simp add: standard_key_def spec_standard_key_def spec_pad64_def h xor_buffer_def len
          bindE_def vector_range_def Let_def)
qed

lemma decrypt_xlsx_standard_value:
  assumes dl: "digest_lengths P" and hdr: "standard_header info = Inr (i, salt, vhi, vhv)"
    and kb: "unat (std_key_bytes i) \<le> 40" and pk: "8 \<le> length pkg"
  shows "decrypt_xlsx_standard P info pw pkg =
           Some (vector_resize P (unat (le_word (take 8 pkg) :: 64 word))
                   (aes_ecb_decrypt P (drop 8 pkg)
                      (spec_standard_key P sha1 (spec_derive (hash P sha1) salt pw 50000)
                         (unat (std_key_bytes i)))))"
proof -
  from standard_header_info [OF hdr]
  have sc: "std_spin_count i = 50000" and h: "std_hash i = sha1" by simp_all
  have len: "length (hash P sha1 x) = 20" for x
    using length_hash [OF dl, of sha1] by (simp add: digest_size_def)
  have "unat (50000 :: 64 word) < 2 ^ 32" by simp
  from derive_h_n_rounds [of "hash P sha1" 20 50000 salt pw, OF len this]
  have d: "derive_h_n (hash P sha1) salt pw 50000 =
             Some (Inr (spec_derive (hash P sha1) salt pw 50000))"
    by simp
  define h_n where "h_n = spec_derive (hash P sha1) salt pw 50000"
  note k = standard_key_value [OF dl h kb, of h_n]
  show ?thesis
    using pk by (simp add: decrypt_xlsx_standard_def hdr sc h d h_n_def [symmetric] k bindE_def
                   standard_package_def read_int_64_prefix)
qed

lemma length_agile_segments:
  "length (agile_segments P result key ss pkg i buf out) = length out + (length pkg - i)"
proof (induction "length pkg - i" arbitrary: i buf out rule: less_induct)
  case less
  show ?case
  proof (cases "i < length pkg")
    case True
    then have "length pkg - (i + ole_segment_length) < length pkg - i"
      by (simp add: ole_segment_length_def)
    from less [OF this] True show ?thesis
      by (subst agile_segments.simps) (simp add: Let_def ole_segment_length_def)
  next
    case False
    then show ?thesis by (subst agile_segments.simps) simp
  qed
qed

lemma agile_package_value:
  assumes "unat (kd_salt_size (key_data result) + 4) = unat (kd_salt_size (key_data result)) + 4"
    and "8 \<le> length pkg"
  shows "agile_package P result h_n pkg =
           vector_resize P (unat (le_word (take 8 pkg) :: 64 word))
             (agile_segments P result
                (calculate_block P result h_n key_value_block_key
                   (ke_encrypted_key_value (key_encryptor result)))
                (unat (kd_salt_size (key_data result))) pkg 8
                (resize (unat (kd_salt_size (key_data result)) + 4) 0
                   (kd_salt_value (key_data result))) [])"
  using assms
  by (simp add: agile_package_def Let_def bindE_def read_int_64_prefix)

lemma sample_agile_segments_16:
  "agile_segments (sample_agile h s v) (sample_agile_result h 16 v)
     (calculate_block (sample_agile h s v) (sample_agile_result h 16 v) (replicate 20 0x49)
        key_value_block_key (ke_encrypted_key_value (key_encryptor (sample_agile_result h 16 v))))
     (unat (kd_salt_size (key_data (sample_agile_result h 16 v)))) (sample_package n 10) 8
     (resize (unat (kd_salt_size (key_data (sample_agile_result h 16 v))) + 4) 0
        (kd_salt_value (key_data (sample_agile_result h 16 v)))) []
   = replicate 10 102"
  by code_simp

lemma sample_no_wrap:
  "unat (kd_salt_size (key_data (sample_agile_result h 16 v)) + 4)
     = unat (kd_salt_size (key_data (sample_agile_result h 16 v))) + 4"
  by (simp add: sample_agile_result_def)

lemma allocates_sample_agile [simp]: "allocates (sample_agile h s v) n \<longleftrightarrow> n \<le> 4096"
  by (simp add: sample_agile_def sample_collaborators_def)

lemma sample_agile_decrypt_16:
  "agile_verify_and_decrypt (sample_agile h ''16'' (replicate 20 (CHR 0xD0)))
     (sample_agile_result h 16 (replicate 20 (CHR 0xD0))) (replicate 20 0x49)
     (sample_package 50 10)
   = Inr (replicate 10 102 @ replicate 40 0)"
proof -
  have "vector_resize (sample_agile h ''16'' (replicate 20 (CHR 0xD0))) 50 (replicate 10 102)
          = Inr (replicate 10 102 @ replicate 40 0)"
    by (simp add: vector_resize_fill max_size_def)
  then show ?thesis
    using sample_agile_verified [of h "''16''" 16]
    by (simp add: agile_verify_and_decrypt_def
          agile_package_value [OF sample_no_wrap] sample_package_prefix sample_agile_segments_16)
qed

subsection \<open>Password verification on the agile path\<close>

text \<open>
  C4. Once the header is decoded and the key derivation loop has returned \<open>h_n\<close>, a
  calculated verifier that differs from the expected verifier (the decrypted verifier
  hash value after \<open>resize\<close> to the length of the calculated one) makes \<open>decrypt_xlsx_agile\<close>
  raise ``bad password''. The outcome is the same for every \<open>EncryptedPackage\<close>, the
  empty one included, whose length prefix could not even be read: nothing of the
  package is looked at before the verifier is compared.
\<close>

theorem agile_bad_password:
  assumes "agile_header P (xml_events P encryption_info) = Inr result"
    and "derive_h_n (hash P (ke_hash (key_encryptor result)))
           (ke_salt_value (key_encryptor result)) password
           (ke_spin_count (key_encryptor result)) = Some (Inr h_n)"
    and "calculated_verifier P result h_n \<noteq> expected_verifier P result h_n"
  shows "decrypt_xlsx_agile P encryption_info password encrypted_package =
           Some (Inl (Exception ''bad password''))
         \<and> decrypt_xlsx_agile P encryption_info password [] =
           Some (Inl (Exception ''bad password''))"
  using assms(3)
  by (simp add: decrypt_xlsx_agile_unfold [OF assms(1,2)] agile_verify_and_decrypt_def)

theorem agile_bad_password_witness:
  "agile_header (sample_agile ''SHA512'' ''16'' (replicate 20 (CHR 0xD1)))
     (xml_events (sample_agile ''SHA512'' ''16'' (replicate 20 (CHR 0xD1))) [])
     = Inr (sample_agile_result ''SHA512'' 16 (replicate 20 (CHR 0xD1)))
   \<and> calculated_verifier (sample_agile ''SHA512'' ''16'' (replicate 20 (CHR 0xD1)))
       (sample_agile_result ''SHA512'' 16 (replicate 20 (CHR 0xD1))) (replicate 20 0x49)
     = replicate 20 0xB2
   \<and> expected_verifier (sample_agile ''SHA512'' ''16'' (replicate 20 (CHR 0xD1)))
       (sample_agile_result ''SHA512'' 16 (replicate 20 (CHR 0xD1))) (replicate 20 0x49)
     = replicate 20 0xB3
   \<and> decrypt_xlsx_agile (sample_agile ''SHA512'' ''16'' (replicate 20 (CHR 0xD1))) []
       sample_password (le_bytes (10 :: 64 word) @ replicate 10 7)
     = Some (Inl (Exception ''bad password''))
   \<and> decrypt_xlsx_agile (sample_agile ''SHA512'' ''16'' (replicate 20 (CHR 0xD1))) []
       sample_password []
     = Some (Inl (Exception ''bad password''))"
proof -
  let ?P = "sample_agile ''SHA512'' ''16'' (replicate 20 (CHR 0xD1))"
  let ?R = "sample_agile_result ''SHA512'' 16 (replicate 20 (CHR 0xD1))"
  have h1: "agile_header ?P (xml_events ?P []) = Inr ?R"
    by (rule sample_agile_header_16)
  have h2: "derive_h_n (hash ?P (ke_hash (key_encryptor ?R)))
              (ke_salt_value (key_encryptor ?R)) sample_password
              (ke_spin_count (key_encryptor ?R)) = Some (Inr (replicate 20 0x49))"
    by (rule sample_agile_h_n_fields)
  have c: "calculated_verifier ?P ?R (replicate 20 0x49) = replicate 20 0xB2"
    by (rule sample_calculated_verifier)
  have e: "expected_verifier ?P ?R (replicate 20 0x49) = replicate 20 0xB3"
    by (simp add: sample_expected_verifier)
  have h3: "calculated_verifier ?P ?R (replicate 20 0x49) \<noteq> expected_verifier ?P ?R (replicate 20 0x49)"
    unfolding c e by simp
  from agile_bad_password [OF h1 h2 h3] h1 c e show ?thesis by simp
qed

subsection \<open>The length prefix of the package\<close>

lemma vector_resize_outcome:
  assumes "r = Some (vector_resize P n d)"
  shows "(n \<le> length d \<longrightarrow> r = Some (Inr (take n d)))
       \<and> (length d < n \<and> n \<le> max_size \<and> allocates P n
            \<longrightarrow> r = Some (Inr (d @ replicate (n - length d) 0)))
       \<and> (length d < n \<and> max_size < n \<longrightarrow> r = Some (Inl LengthError))
       \<and> (\<forall>msg. r \<noteq> Some (Inl (Exception msg)))"
  using assms by (simp add: vector_resize_def)

lemma max_size_no_wrap:
  assumes "unat (s :: 64 word) + 4 \<le> max_size"
  shows "unat (s + 4) = unat s + 4"
proof -
  have "unat s + unat (4 :: 64 word) < 2 ^ LENGTH(64)"
    using assms by (simp add: max_size_def)
  then have "unat (s + 4) = unat s + unat (4 :: 64 word)"
    by (simp only: unat_add_lem [THEN iffD1])
  then show ?thesis by simp
qed

lemma sample_package_prefix_5:
  "length (sample_package 5 10) = 18"
  "unat (le_word (take 8 (sample_package 5 10)) :: 64 word) = 5"
  by code_simp+

lemma sample_package_take: "take 8 (sample_package w m) = le_bytes w"
  by (simp add: sample_package_def le_bytes_def)

lemma sample_package_prefix_big:
  "unat (le_word (take 8 (sample_package 0x8000000000000000 m)) :: 64 word)
     = 9223372036854775808"
proof -
  have "le_word (le_bytes (0x8000000000000000 :: 64 word)) = (0x8000000000000000 :: 64 word)"
    by code_simp
  then show ?thesis
    by (simp add: sample_package_take)
qed

lemma sample_package_length: "length (sample_package w m) = 8 + m"
  by (simp add: sample_package_def le_bytes_def)

lemma sample_package_prefix_32:
  "length (sample_package 32 16) = 24"
  "unat (le_word (take 8 (sample_package 32 16)) :: 64 word) = 32"
  by code_simp+

lemma sample_ecb_length:
  "length (aes_ecb_decrypt (sample_agile h s v) (drop 8 (sample_package n 16)) k) = 16"
  by (simp add: sample_agile_def sample_collaborators_def sample_package_def le_bytes_def)

text \<open>
  C3, as amended. For a package of at least eight bytes, on either path, the bytes that
  were decrypted are brought to the length \<open>n\<close> that the prefix states, and no
  \<open>xlnt::exception\<close> is raised whatever the prefix is. On the standard path the decrypted
  bytes \<open>d\<close> are the ciphertext after the prefix under AES-ECB with the key of the
  specification, derived from the chain of 50000 rounds of SHA-1 (the header having been
  decoded with a key of at most 40 bytes); on the agile path they are the output \<open>d'\<close> of
  the segment loop, as many bytes as there are after the prefix (the header having been
  decoded, the key derivation having returned, the verifier having matched, and the
  buffer of \<open>saltSize + 4\<close> bytes having been allocated). On both paths: a prefix that
  does not exceed the decrypted bytes cuts them to \<open>n\<close>; a prefix that exceeds them and
  is at most \<open>max_size()\<close> returns them followed by zero bytes up to \<open>n\<close>, when the
  allocation succeeds; a prefix that exceeds them and \<open>max_size()\<close> ends in
  \<open>std::length_error\<close>, thrown by \<open>resize\<close>.
\<close>

theorem decrypted_size_prefix_is_imposed:
  assumes "8 \<le> length encrypted_package"
    and "n = unat (le_word (take 8 encrypted_package) :: 64 word)"
  shows "(digest_lengths P \<and> standard_header encryption_info = Inr (i, salt, vhi, vhv)
            \<and> unat (std_key_bytes i) \<le> 40
            \<and> d = aes_ecb_decrypt P (drop 8 encrypted_package)
                    (spec_standard_key P sha1 (spec_derive (hash P sha1) salt password 50000)
                       (unat (std_key_bytes i)))
          \<longrightarrow> (n \<le> length d \<longrightarrow>
                 decrypt_xlsx_standard P encryption_info password encrypted_package =
                   Some (Inr (take n d)))
              \<and> (length d < n \<and> n \<le> max_size \<and> allocates P n \<longrightarrow>
                 decrypt_xlsx_standard P encryption_info password encrypted_package =
                   Some (Inr (d @ replicate (n - length d) 0)))
              \<and> (length d < n \<and> max_size < n \<longrightarrow>
                 decrypt_xlsx_standard P encryption_info password encrypted_package =
                   Some (Inl LengthError))
              \<and> (\<forall>msg. decrypt_xlsx_standard P encryption_info password encrypted_package \<noteq>
                   Some (Inl (Exception msg))))
       \<and> (agile_header P (xml_events P agile_encryption_info) = Inr result
            \<and> derive_h_n (hash P (ke_hash (key_encryptor result)))
                 (ke_salt_value (key_encryptor result)) password
                 (ke_spin_count (key_encryptor result)) = Some (Inr h_n)
            \<and> calculated_verifier P result h_n = expected_verifier P result h_n
            \<and> unat (kd_salt_size (key_data result)) + 4 \<le> max_size
            \<and> allocates P (unat (kd_salt_size (key_data result)) + 4)
            \<and> d' = agile_segments P result
                     (calculate_block P result h_n key_value_block_key
                        (ke_encrypted_key_value (key_encryptor result)))
                     (unat (kd_salt_size (key_data result))) encrypted_package 8
                     (resize (unat (kd_salt_size (key_data result)) + 4) 0
                        (kd_salt_value (key_data result))) []
          \<longrightarrow> length d' = length encrypted_package - 8
              \<and> (n \<le> length d' \<longrightarrow>
                 decrypt_xlsx_agile P agile_encryption_info password encrypted_package =
                   Some (Inr (take n d')))
              \<and> (length d' < n \<and> n \<le> max_size \<and> allocates P n \<longrightarrow>
                 decrypt_xlsx_agile P agile_encryption_info password encrypted_package =
                   Some (Inr (d' @ replicate (n - length d') 0)))
              \<and> (length d' < n \<and> max_size < n \<longrightarrow>
                 decrypt_xlsx_agile P agile_encryption_info password encrypted_package =
                   Some (Inl LengthError))
              \<and> (\<forall>msg. decrypt_xlsx_agile P agile_encryption_info password encrypted_package \<noteq>
                   Some (Inl (Exception msg))))"
proof (rule conjI; rule impI)
  assume a: "digest_lengths P \<and> standard_header encryption_info = Inr (i, salt, vhi, vhv)
            \<and> unat (std_key_bytes i) \<le> 40
            \<and> d = aes_ecb_decrypt P (drop 8 encrypted_package)
                    (spec_standard_key P sha1 (spec_derive (hash P sha1) salt password 50000)
                       (unat (std_key_bytes i)))"
  have "decrypt_xlsx_standard P encryption_info password encrypted_package =
          Some (vector_resize P n d)"
    using decrypt_xlsx_standard_value [of P encryption_info i salt vhi vhv encrypted_package password]
      a assms
    by simp
  then show "(n \<le> length d \<longrightarrow>
                 decrypt_xlsx_standard P encryption_info password encrypted_package =
                   Some (Inr (take n d)))
              \<and> (length d < n \<and> n \<le> max_size \<and> allocates P n \<longrightarrow>
                 decrypt_xlsx_standard P encryption_info password encrypted_package =
                   Some (Inr (d @ replicate (n - length d) 0)))
              \<and> (length d < n \<and> max_size < n \<longrightarrow>
                 decrypt_xlsx_standard P encryption_info password encrypted_package =
                   Some (Inl LengthError))
              \<and> (\<forall>msg. decrypt_xlsx_standard P encryption_info password encrypted_package \<noteq>
                   Some (Inl (Exception msg)))"
    by (rule vector_resize_outcome)
next
  assume a: "agile_header P (xml_events P agile_encryption_info) = Inr result
            \<and> derive_h_n (hash P (ke_hash (key_encryptor result)))
                 (ke_salt_value (key_encryptor result)) password
                 (ke_spin_count (key_encryptor result)) = Some (Inr h_n)
            \<and> calculated_verifier P result h_n = expected_verifier P result h_n
            \<and> unat (kd_salt_size (key_data result)) + 4 \<le> max_size
            \<and> allocates P (unat (kd_salt_size (key_data result)) + 4)
            \<and> d' = agile_segments P result
                     (calculate_block P result h_n key_value_block_key
                        (ke_encrypted_key_value (key_encryptor result)))
                     (unat (kd_salt_size (key_data result))) encrypted_package 8
                     (resize (unat (kd_salt_size (key_data result)) + 4) 0
                        (kd_salt_value (key_data result))) []"
  then have u: "decrypt_xlsx_agile P agile_encryption_info password encrypted_package =
                  Some (agile_package P result h_n encrypted_package)"
    by (simp add: decrypt_xlsx_agile_unfold [of P agile_encryption_info result password h_n]
          agile_verify_and_decrypt_def)
  from a have nw: "unat (kd_salt_size (key_data result) + 4)
                     = unat (kd_salt_size (key_data result)) + 4"
    by (simp add: max_size_no_wrap)
  have len: "length d' = length encrypted_package - 8"
    using a by (simp add: length_agile_segments)
  have "decrypt_xlsx_agile P agile_encryption_info password encrypted_package =
          Some (vector_resize P n d')"
    unfolding u using a assms(2) by (simp add: agile_package_value [OF nw assms(1)])
  from len vector_resize_outcome [OF this]
  show "length d' = length encrypted_package - 8
              \<and> (n \<le> length d' \<longrightarrow>
                 decrypt_xlsx_agile P agile_encryption_info password encrypted_package =
                   Some (Inr (take n d')))
              \<and> (length d' < n \<and> n \<le> max_size \<and> allocates P n \<longrightarrow>
                 decrypt_xlsx_agile P agile_encryption_info password encrypted_package =
                   Some (Inr (d' @ replicate (n - length d') 0)))
              \<and> (length d' < n \<and> max_size < n \<longrightarrow>
                 decrypt_xlsx_agile P agile_encryption_info password encrypted_package =
                   Some (Inl LengthError))
              \<and> (\<forall>msg. decrypt_xlsx_agile P agile_encryption_info password encrypted_package \<noteq>
                   Some (Inl (Exception msg)))"
    by simp
qed

theorem decrypted_size_prefix_is_imposed_witness:
  "digest_lengths (sample_agile ''SHA512'' ''16'' (replicate 20 (CHR 0xD0)))
   \<and> standard_header (sample_standard_header 0x8004) =
       Inr (\<lparr>std_spin_count = 50000, std_key_bits = 128, std_key_bytes = 16,
             std_cipher = aes, std_hash = sha1\<rparr>,
            replicate 16 1, replicate 16 2, replicate 32 3)
   \<and> length (aes_ecb_decrypt (sample_agile ''SHA512'' ''16'' (replicate 20 (CHR 0xD0)))
        (drop 8 (sample_package 32 16))
        (spec_standard_key (sample_agile ''SHA512'' ''16'' (replicate 20 (CHR 0xD0))) sha1
           (spec_derive (hash (sample_agile ''SHA512'' ''16'' (replicate 20 (CHR 0xD0))) sha1)
              (replicate 16 1) sample_password 50000) 16)) = 16
   \<and> decrypt_xlsx_standard (sample_agile ''SHA512'' ''16'' (replicate 20 (CHR 0xD0)))
       (sample_standard_header 0x8004) sample_password (sample_package 32 16) =
     Some (Inr (aes_ecb_decrypt (sample_agile ''SHA512'' ''16'' (replicate 20 (CHR 0xD0)))
                  (drop 8 (sample_package 32 16))
                  (spec_standard_key (sample_agile ''SHA512'' ''16'' (replicate 20 (CHR 0xD0))) sha1
                     (spec_derive (hash (sample_agile ''SHA512'' ''16'' (replicate 20 (CHR 0xD0))) sha1)
                        (replicate 16 1) sample_password 50000) 16)
                @ replicate 16 0))
   \<and> decrypt_xlsx_standard (sample_agile ''SHA512'' ''16'' (replicate 20 (CHR 0xD0)))
       (sample_standard_header 0x8004) sample_password (sample_package 0x8000000000000000 16) =
     Some (Inl LengthError)
   \<and> agile_header (sample_agile ''SHA512'' ''16'' (replicate 20 (CHR 0xD0)))
       (xml_events (sample_agile ''SHA512'' ''16'' (replicate 20 (CHR 0xD0))) [])
       = Inr (sample_agile_result ''SHA512'' 16 (replicate 20 (CHR 0xD0)))
   \<and> allocates (sample_agile ''SHA512'' ''16'' (replicate 20 (CHR 0xD0))) 50
   \<and> decrypt_xlsx_agile (sample_agile ''SHA512'' ''16'' (replicate 20 (CHR 0xD0))) []
       sample_password (sample_package 5 10) = Some (Inr (replicate 5 102))
   \<and> decrypt_xlsx_agile (sample_agile ''SHA512'' ''16'' (replicate 20 (CHR 0xD0))) []
       sample_password (sample_package 50 10) = Some (Inr (replicate 10 102 @ replicate 40 0))
   \<and> decrypt_xlsx_agile (sample_agile ''SHA512'' ''16'' (replicate 20 (CHR 0xD0))) []
       sample_password (sample_package 0x8000000000000000 10) = Some (Inl LengthError)"
proof -
  let ?P = "sample_agile ''SHA512'' ''16'' (replicate 20 (CHR 0xD0))"
  let ?R = "sample_agile_result ''SHA512'' 16 (replicate 20 (CHR 0xD0))"
  let ?i = "\<lparr>std_spin_count = 50000, std_key_bits = 128, std_key_bytes = 16,
             std_cipher = aes, std_hash = sha1\<rparr>"
  let ?d = "\<lambda>pkg. aes_ecb_decrypt ?P (drop 8 pkg)
              (spec_standard_key ?P sha1
                 (spec_derive (hash ?P sha1) (replicate 16 1) sample_password 50000)
                 (unat (std_key_bytes ?i)))"
  have std: "digest_lengths ?P
       \<and> standard_header (sample_standard_header 0x8004)
           = Inr (?i, replicate 16 1, replicate 16 2, replicate 32 3)
       \<and> unat (std_key_bytes ?i) \<le> 40 \<and> ?d pkg = ?d pkg" for pkg
    using sample_standard_header_ok by simp
  have len: "length (?d (sample_package w 16)) = 16" for w
    by (rule sample_ecb_length)
  have agile: "agile_header ?P (xml_events ?P []) = Inr ?R
       \<and> derive_h_n (hash ?P (ke_hash (key_encryptor ?R))) (ke_salt_value (key_encryptor ?R))
           sample_password (ke_spin_count (key_encryptor ?R)) = Some (Inr (replicate 20 0x49))
       \<and> calculated_verifier ?P ?R (replicate 20 0x49) = expected_verifier ?P ?R (replicate 20 0x49)
       \<and> unat (kd_salt_size (key_data ?R)) + 4 \<le> max_size
       \<and> allocates ?P (unat (kd_salt_size (key_data ?R)) + 4)
       \<and> replicate 10 102 = agile_segments ?P ?R
            (calculate_block ?P ?R (replicate 20 0x49) key_value_block_key
               (ke_encrypted_key_value (key_encryptor ?R)))
            (unat (kd_salt_size (key_data ?R))) (sample_package w 10) 8
            (resize (unat (kd_salt_size (key_data ?R)) + 4) 0 (kd_salt_value (key_data ?R))) []"
    for w
  proof (intro conjI)
    show "unat (kd_salt_size (key_data ?R)) + 4 \<le> max_size"
      by (simp add: sample_agile_result_def max_size_def)
    show "allocates ?P (unat (kd_salt_size (key_data ?R)) + 4)"
      by (simp add: sample_agile_result_def)
  qed (rule sample_agile_header_16 sample_agile_h_n_fields sample_agile_verified
         sample_agile_segments_16 [symmetric])+
  have pk: "8 \<le> length (sample_package w m)" for w m
    by (simp add: sample_package_length)
  have s32: "decrypt_xlsx_standard ?P (sample_standard_header 0x8004) sample_password
               (sample_package 32 16)
             = Some (Inr (?d (sample_package 32 16) @ replicate 16 0))"
    using decrypted_size_prefix_is_imposed [OF pk sample_package_prefix_32(2) [symmetric],
        THEN conjunct1, THEN mp, OF std] len
    by (simp add: max_size_def)
  have sbig: "decrypt_xlsx_standard ?P (sample_standard_header 0x8004) sample_password
               (sample_package 0x8000000000000000 16) = Some (Inl LengthError)"
    using decrypted_size_prefix_is_imposed [OF pk sample_package_prefix_big [symmetric],
        THEN conjunct1, THEN mp, OF std] len
    by (simp add: max_size_def)
  have a5: "decrypt_xlsx_agile ?P [] sample_password (sample_package 5 10)
              = Some (Inr (replicate 5 102))"
    using decrypted_size_prefix_is_imposed [OF pk sample_package_prefix_5(2) [symmetric],
        THEN conjunct2, THEN mp, OF agile]
    by simp
  have a50: "decrypt_xlsx_agile ?P [] sample_password (sample_package 50 10)
              = Some (Inr (replicate 10 102 @ replicate 40 0))"
    using decrypted_size_prefix_is_imposed [OF pk sample_package_prefix(2) [symmetric],
        THEN conjunct2, THEN mp, OF agile]
    by (simp add: max_size_def)
  have abig: "decrypt_xlsx_agile ?P [] sample_password (sample_package 0x8000000000000000 10)
              = Some (Inl LengthError)"
    using decrypted_size_prefix_is_imposed [OF pk sample_package_prefix_big [symmetric],
        THEN conjunct2, THEN mp, OF agile]
    by (simp add: max_size_def)
  from s32 sbig a5 a50 abig len sample_standard_header_ok
    sample_agile_header_16 [of "''SHA512''" "replicate 20 (CHR 0xD0)"]
  show ?thesis by simp
qed

text \<open>
  C3 as stated fails: with a prefix of 50 before 10 bytes of ciphertext the agile path
  returns the 10 decrypted bytes followed by 40 zero bytes, and with a prefix of 32
  before 16 bytes the standard path returns 32 bytes of which the last 16 are zero.
\<close>

theorem decrypted_size_prefix_is_imposed_counterexample:
  "decrypt_xlsx_agile (sample_agile ''SHA512'' ''16'' (replicate 20 (CHR 0xD0))) []
     sample_password (sample_package 50 10)
   = Some (Inr (replicate 10 102 @ replicate 40 0))
   \<and> (case decrypt_xlsx_standard sample_collaborators (sample_standard_header 0x8004)
             sample_password (sample_package 32 16) of
        Some (Inr out) \<Rightarrow> length out = 32 \<and> drop 16 out = replicate 16 0
      | _ \<Rightarrow> False)"
proof
  show "decrypt_xlsx_agile (sample_agile ''SHA512'' ''16'' (replicate 20 (CHR 0xD0))) []
     sample_password (sample_package 50 10)
   = Some (Inr (replicate 10 102 @ replicate 40 0))"
    by (simp only: decrypt_xlsx_agile_unfold [OF sample_agile_header_16 sample_agile_h_n_fields]
          sample_agile_decrypt_16)
next
  let ?pkg = "sample_package 32 16"
  let ?d = "aes_ecb_decrypt sample_collaborators (drop 8 ?pkg)
              (spec_standard_key sample_collaborators sha1
                 (spec_derive (hash sample_collaborators sha1) (replicate 16 1) sample_password 50000)
                 (unat (16 :: 64 word)))"
  have l: "length ?d = 16"
    by (simp add: sample_collaborators_def sample_package_def le_bytes_def)
  have pk: "8 \<le> length ?pkg" by (simp add: sample_package_length)
  have "vector_resize sample_collaborators 32 ?d = Inr (?d @ replicate 16 0)"
    using l by (simp add: vector_resize_def max_size_def sample_collaborators_def)
  with decrypt_xlsx_standard_value [OF digest_lengths_sample sample_standard_header_ok _ pk,
      of sample_password]
  have "decrypt_xlsx_standard sample_collaborators (sample_standard_header 0x8004)
             sample_password ?pkg = Some (Inr (?d @ replicate 16 0))"
    by (simp add: sample_package_prefix_32)
  then show "case decrypt_xlsx_standard sample_collaborators (sample_standard_header 0x8004)
             sample_password ?pkg of
        Some (Inr out) \<Rightarrow> length out = 32 \<and> drop 16 out = replicate 16 0
      | _ \<Rightarrow> False"
    using l by simp
qed

subsection \<open>The segments of the agile package\<close>

lemma load_u32_end [simp]: "length s = at \<Longrightarrow> load_u32 at (s @ le_bytes (w :: 32 word)) = w"
  using load_u32_append [of s at w "[]"] by simp

lemma store_u32_end [simp]:
  "length s = at \<Longrightarrow> store_u32 at w (s @ le_bytes (w' :: 32 word)) = s @ le_bytes w"
  using store_u32_append [of s at w w' "[]"] by simp

lemma resize_take: "n \<le> length v \<Longrightarrow> resize n x v = take n v"
  by (simp add: resize_def)

lemma segments_bound:
  "k < (n + 4095) div 4096 \<longleftrightarrow> 4096 * k < (n :: nat)"
proof -
  have "k < (n + 4095) div 4096 \<longleftrightarrow> Suc k \<le> (n + 4095) div 4096"
    by (simp add: Suc_le_eq)
  also have "\<dots> \<longleftrightarrow> Suc k * 4096 \<le> n + 4095"
    by (rule less_eq_div_iff_mult_less_eq) simp
  also have "\<dots> \<longleftrightarrow> 4096 * k < n"
    by auto
  finally show ?thesis .
qed

text \<open>
  The loop invariant of the package loop: at the start of round \<open>k\<close> the index is
  \<open>8 + 4096 * k\<close>, the counter behind the salt is \<open>k\<close>, and the output holds the first
  \<open>k\<close> segments.
\<close>

lemma agile_segments_refine:
  assumes dl: "digest_lengths P" and cbc: "cbc_covers P"
    and alg: "ke_hash (key_encryptor result) = alg" and pk: "8 \<le> length pkg"
    and ss: "length salt = salt_size"
  shows "agile_segments P result key salt_size pkg (8 + 4096 * k)
           (salt @ le_bytes (word_of_nat k :: 32 word)) out =
         out @ concat (map (spec_segment P alg key salt (drop 8 pkg))
                          [k..<(length pkg - 8 + 4095) div 4096])"
proof (induction "(length pkg - 8 + 4095) div 4096 - k" arbitrary: k out)
  case 0
  then have "\<not> k < (length pkg - 8 + 4095) div 4096" by simp
  then have "\<not> 4096 * k < length pkg - 8" by (simp add: segments_bound)
  then have stop: "\<not> 8 + 4096 * k < length pkg" by simp
  from 0 have "[k..<(length pkg - 8 + 4095) div 4096] = []" by simp
  with stop show ?case by (subst agile_segments.simps) simp
next
  case (Suc m)
  then have km: "k < (length pkg - 8 + 4095) div 4096" by simp
  then have lt: "4096 * k < length pkg - 8" by (simp add: segments_bound)
  then have go: "8 + 4096 * k < length pkg" by simp
  let ?ct = "drop 8 pkg"
  let ?len = "min ole_segment_length (length pkg - (8 + 4096 * k))"
  let ?chunk = "take 4096 (drop (4096 * k) ?ct)"
  have chunk_len: "length ?chunk = ?len"
    by (auto simp add: ole_segment_length_def min_def)
  have "drop (8 + 4096 * k) pkg = drop (4096 * k) ?ct"
    by (simp add: add.commute)
  then have chunk: "take ?len (drop (8 + 4096 * k) pkg) = ?chunk"
    by (auto simp add: ole_segment_length_def min_def)
  have "16 \<le> length (hash P alg x)" for x
    using length_hash [OF dl, of alg x] by (cases alg) (simp_all add: digest_size_def)
  then have iv: "resize 16 0 (hash P alg (salt @ le_bytes (word_of_nat k :: 32 word)))
                 = spec_segment_iv P alg salt k"
    by (simp add: resize_take spec_segment_iv_def)
  have seg: "resize ?len 0 (aes_cbc_decrypt P ?chunk key (spec_segment_iv P alg salt k))
             = spec_segment P alg key salt ?ct k"
    using cbc [unfolded cbc_covers_def, rule_format, of ?chunk key "spec_segment_iv P alg salt k"]
    by (simp only: spec_segment_def Let_def chunk_len [symmetric] resize_take)
  have counter: "store_u32 salt_size
                   (load_u32 salt_size (salt @ le_bytes (word_of_nat k :: 32 word)) + 1)
                   (salt @ le_bytes (word_of_nat k :: 32 word))
                 = salt @ le_bytes (word_of_nat (Suc k) :: 32 word)"
    using ss by (simp add: add.commute)
  have next_i: "8 + 4096 * k + ole_segment_length = 8 + 4096 * Suc k"
    by (simp add: ole_segment_length_def)
  have IH: "agile_segments P result key salt_size pkg (8 + 4096 * Suc k)
              (salt @ le_bytes (word_of_nat (Suc k) :: 32 word))
              (out @ spec_segment P alg key salt ?ct k) =
            (out @ spec_segment P alg key salt ?ct k)
              @ concat (map (spec_segment P alg key salt ?ct)
                          [Suc k..<(length pkg - 8 + 4095) div 4096])"
    using Suc(1) [of "Suc k"] Suc(2) by simp
  have unfold: "agile_segments P result key salt_size pkg (8 + 4096 * k)
           (salt @ le_bytes (word_of_nat k :: 32 word)) out =
         agile_segments P result key salt_size pkg (8 + 4096 * Suc k)
              (salt @ le_bytes (word_of_nat (Suc k) :: 32 word))
              (out @ spec_segment P alg key salt ?ct k)"
    by (subst agile_segments.simps)
       (simp only: go if_True Let_def alg iv chunk seg counter next_i)
  show ?case
    unfolding unfold IH using km by (simp add: upt_conv_Cons)
qed

lemma agile_package_refines:
  assumes dl: "digest_lengths P" and cbc: "cbc_covers P"
    and salt: "unat (kd_salt_size (key_data result)) = length (kd_salt_value (key_data result))"
    and nowrap: "length (kd_salt_value (key_data result)) + 4 < 2 ^ 64"
    and pk: "8 \<le> length encrypted_package"
    and prefix: "unat (le_word (take 8 encrypted_package) :: 64 word)
                   \<le> length encrypted_package - 8"
  shows "agile_package P result h_n encrypted_package =
           Inr (spec_agile_package P (ke_hash (key_encryptor result))
                  (calculate_block P result h_n key_value_block_key
                     (ke_encrypted_key_value (key_encryptor result)))
                  (kd_salt_value (key_data result)) encrypted_package)"
proof -
  let ?alg = "ke_hash (key_encryptor result)"
  let ?key = "calculate_block P result h_n key_value_block_key
                (ke_encrypted_key_value (key_encryptor result))"
  let ?salt = "kd_salt_value (key_data result)"
  let ?ss = "kd_salt_size (key_data result)"
  have "unat ?ss + unat (4 :: 64 word) < 2 ^ LENGTH(64)"
    using salt nowrap by simp
  then have "unat (?ss + 4) = unat ?ss + unat (4 :: 64 word)"
    by (simp only: unat_add_lem [THEN iffD1])
  then have nw: "unat (?ss + 4) = unat ?ss + 4" by simp
  have buf: "resize (unat ?ss + 4) 0 ?salt = ?salt @ le_bytes (word_of_nat 0 :: 32 word)"
    by (simp add: resize_def salt le_bytes32 eval_nat_numeral)
  have loop: "agile_segments P result ?key (unat ?ss) encrypted_package 8
                (resize (unat ?ss + 4) 0 ?salt) [] =
              concat (spec_segments P ?alg ?key ?salt (drop 8 encrypted_package))"
    unfolding buf
    using agile_segments_refine [OF dl cbc refl pk salt [symmetric], of result ?key 0 "[]"]
    by (simp add: spec_segments_def)
  have "length (concat (spec_segments P ?alg ?key ?salt (drop 8 encrypted_package)))
          = length encrypted_package - 8"
    using loop length_agile_segments [of P result ?key "unat ?ss" encrypted_package 8
        "resize (unat ?ss + 4) 0 ?salt" "[]"]
    by simp
  with prefix
  have "vector_resize P (unat (le_word (take 8 encrypted_package) :: 64 word))
          (concat (spec_segments P ?alg ?key ?salt (drop 8 encrypted_package)))
        = Inr (spec_agile_package P ?alg ?key ?salt encrypted_package)"
    by (simp add: spec_agile_package_def vector_resize_cut)
  then show ?thesis
    by (simp only: agile_package_value [OF nw pk] loop)
qed

lemma cbc_covers_sample_agile [simp]: "cbc_covers (sample_agile h s v)"
  by (simp add: cbc_covers_def sample_agile_def sample_collaborators_def)

lemma sample_package_5:
  "8 \<le> length (sample_package 5 10)"
  "unat (le_word (take 8 (sample_package 5 10)) :: 64 word) \<le> length (sample_package 5 10) - 8"
  by code_simp+

lemma sample_spec_agile_package:
  "spec_agile_package (sample_agile h s v) sha1
     (calculate_block (sample_agile h s v) (sample_agile_result h n v) (replicate 20 0x49)
        key_value_block_key (c_str ''encrypted-key-00''))
     (c_str ''0123456789abcdef'') (sample_package 5 10) = replicate 5 102"
  "spec_agile_package (sample_agile h s v) sha1
     (calculate_block (sample_agile h s v) (sample_agile_result h n v) (replicate 20 0x49)
        key_value_block_key (c_str ''encrypted-key-00''))
     (c_str ''0123456789abcdef'') (sample_package 50 10) = replicate 10 102"
  by code_simp+

lemma sample_agile_decrypt_0:
  "agile_verify_and_decrypt (sample_agile h ''0'' (replicate 20 (CHR 0xD0)))
     (sample_agile_result h 0 (replicate 20 (CHR 0xD0))) (replicate 20 0x49)
     (sample_package 5 10)
   = Inr (replicate 5 166)"
  by code_simp

text \<open>
  C6, as amended. On the agile path, for a header whose \<open>saltSize\<close> attribute of
  \<open>keyData\<close> is the length of the decoded salt, a package of at least eight bytes and a
  prefix that does not exceed the \<open>n\<close> bytes of ciphertext after it (with digests of at
  least 16 bytes and a cipher that returns no less than it was given), \<open>decrypt\<close> returns
  what the specification describes: the ciphertext is cut into \<open>ceil(n / 4096)\<close>
  consecutive segments of 4096 bytes, the last one possibly shorter and none empty;
  segment \<open>i\<close> is decrypted with the package key and the first 16 bytes of
  \<open>Hash(salt ++ little_endian_u32(i))\<close>, with the hash of the key encryptor, and truncated
  to the length of its ciphertext; the segments are appended in order and the whole is
  truncated to the prefix.
\<close>

theorem agile_package_segments:
  assumes hdr: "agile_header P (xml_events P encryption_info) = Inr result"
    and h_n: "derive_h_n (hash P (ke_hash (key_encryptor result)))
                (ke_salt_value (key_encryptor result)) password
                (ke_spin_count (key_encryptor result)) = Some (Inr h_n)"
    and ok: "calculated_verifier P result h_n = expected_verifier P result h_n"
    and dl: "digest_lengths P" and cbc: "cbc_covers P"
    and salt: "unat (kd_salt_size (key_data result)) = length (kd_salt_value (key_data result))"
    and nowrap: "length (kd_salt_value (key_data result)) + 4 < 2 ^ 64"
    and pk: "8 \<le> length encrypted_package"
    and prefix: "unat (le_word (take 8 encrypted_package) :: 64 word)
                   \<le> length encrypted_package - 8"
  shows "decrypt_xlsx_agile P encryption_info password encrypted_package =
           Some (Inr (spec_agile_package P (ke_hash (key_encryptor result))
                        (calculate_block P result h_n key_value_block_key
                           (ke_encrypted_key_value (key_encryptor result)))
                        (kd_salt_value (key_data result)) encrypted_package))
         \<and> length (spec_segments P (ke_hash (key_encryptor result))
                     (calculate_block P result h_n key_value_block_key
                        (ke_encrypted_key_value (key_encryptor result)))
                     (kd_salt_value (key_data result)) (drop 8 encrypted_package))
             = (length encrypted_package - 8 + 4095) div 4096
         \<and> (\<forall>i < (length encrypted_package - 8 + 4095) div 4096.
               length (spec_segments P (ke_hash (key_encryptor result))
                        (calculate_block P result h_n key_value_block_key
                           (ke_encrypted_key_value (key_encryptor result)))
                        (kd_salt_value (key_data result)) (drop 8 encrypted_package) ! i)
               = min 4096 (length encrypted_package - 8 - 4096 * i))"
proof (intro conjI allI impI)
  have "decrypt_xlsx_agile P encryption_info password encrypted_package =
          Some (agile_package P result h_n encrypted_package)"
    using ok by (simp add: decrypt_xlsx_agile_unfold [OF hdr h_n] agile_verify_and_decrypt_def)
  then show "decrypt_xlsx_agile P encryption_info password encrypted_package =
           Some (Inr (spec_agile_package P (ke_hash (key_encryptor result))
                        (calculate_block P result h_n key_value_block_key
                           (ke_encrypted_key_value (key_encryptor result)))
                        (kd_salt_value (key_data result)) encrypted_package))"
    by (simp only: agile_package_refines [OF dl cbc salt nowrap pk prefix])
next
  show "length (spec_segments P (ke_hash (key_encryptor result))
                     (calculate_block P result h_n key_value_block_key
                        (ke_encrypted_key_value (key_encryptor result)))
                     (kd_salt_value (key_data result)) (drop 8 encrypted_package))
             = (length encrypted_package - 8 + 4095) div 4096"
    by (simp add: spec_segments_def)
next
  fix i
  assume i: "i < (length encrypted_package - 8 + 4095) div 4096"
  let ?chunk = "take 4096 (drop (4096 * i) (drop 8 encrypted_package))"
  have "length ?chunk \<le> length (aes_cbc_decrypt P ?chunk k iv)" for k iv
    using cbc by (simp only: cbc_covers_def)
  then have "length (spec_segment P alg k s (drop 8 encrypted_package) i) = length ?chunk" for alg k s
    by (simp only: spec_segment_def Let_def length_take min_absorb2)
  with i show "length (spec_segments P (ke_hash (key_encryptor result))
                        (calculate_block P result h_n key_value_block_key
                           (ke_encrypted_key_value (key_encryptor result)))
                        (kd_salt_value (key_data result)) (drop 8 encrypted_package) ! i)
               = min 4096 (length encrypted_package - 8 - 4096 * i)"
    by (simp add: spec_segments_def min.commute add.commute)
qed

theorem agile_package_segments_witness:
  "agile_header (sample_agile ''SHA512'' ''16'' (replicate 20 (CHR 0xD0)))
     (xml_events (sample_agile ''SHA512'' ''16'' (replicate 20 (CHR 0xD0))) [])
     = Inr (sample_agile_result ''SHA512'' 16 (replicate 20 (CHR 0xD0)))
   \<and> digest_lengths (sample_agile ''SHA512'' ''16'' (replicate 20 (CHR 0xD0)))
   \<and> cbc_covers (sample_agile ''SHA512'' ''16'' (replicate 20 (CHR 0xD0)))
   \<and> 8 \<le> length (sample_package 5 10)
   \<and> decrypt_xlsx_agile (sample_agile ''SHA512'' ''16'' (replicate 20 (CHR 0xD0))) []
       sample_password (sample_package 5 10)
     = Some (Inr (spec_agile_package (sample_agile ''SHA512'' ''16'' (replicate 20 (CHR 0xD0))) sha1
                    (calculate_block (sample_agile ''SHA512'' ''16'' (replicate 20 (CHR 0xD0)))
                       (sample_agile_result ''SHA512'' 16 (replicate 20 (CHR 0xD0)))
                       (replicate 20 0x49) key_value_block_key (c_str ''encrypted-key-00''))
                    (c_str ''0123456789abcdef'') (sample_package 5 10)))
   \<and> decrypt_xlsx_agile (sample_agile ''SHA512'' ''16'' (replicate 20 (CHR 0xD0))) []
       sample_password (sample_package 5 10)
     = Some (Inr (replicate 5 102))"
proof -
  let ?P = "sample_agile ''SHA512'' ''16'' (replicate 20 (CHR 0xD0))"
  let ?R = "sample_agile_result ''SHA512'' 16 (replicate 20 (CHR 0xD0))"
  have salt: "unat (kd_salt_size (key_data ?R)) = length (kd_salt_value (key_data ?R))"
    by (simp add: sample_agile_result_def c_str_def)
  have nowrap: "length (kd_salt_value (key_data ?R)) + 4 < 2 ^ 64"
    by (simp add: sample_agile_result_def c_str_def)
  have f: "ke_hash (key_encryptor ?R) = sha1"
    "ke_encrypted_key_value (key_encryptor ?R) = c_str ''encrypted-key-00''"
    "kd_salt_value (key_data ?R) = c_str ''0123456789abcdef''"
    by (simp_all add: sample_agile_result_def)
  from agile_package_segments [OF sample_agile_header_16 sample_agile_h_n_fields
      sample_agile_verified digest_lengths_sample_agile cbc_covers_sample_agile salt nowrap
      sample_package_5, THEN conjunct1]
  have "decrypt_xlsx_agile ?P [] sample_password (sample_package 5 10)
     = Some (Inr (spec_agile_package ?P sha1
                    (calculate_block ?P ?R (replicate 20 0x49) key_value_block_key
                       (c_str ''encrypted-key-00''))
                    (c_str ''0123456789abcdef'') (sample_package 5 10)))"
    unfolding f .
  then show ?thesis
    using sample_agile_header_16 [of "''SHA512''" "replicate 20 (CHR 0xD0)"] sample_package_5(1)
    by (simp add: sample_spec_agile_package)
qed

text \<open>
  C6 as stated fails on two kinds of input. The buffer that is hashed for the
  initialisation vector is the salt after \<open>resize(saltSize + 4)\<close>, with the counter at
  offset \<open>saltSize\<close>: with \<open>saltSize="0"\<close> and a salt of 16 bytes the vector of segment 0
  is the hash of the first four bytes of the salt, and the plaintext differs from the
  one of the specification. And with a prefix of 50 before 10 bytes of ciphertext the
  result is filled up with zero bytes, not truncated.
\<close>

theorem agile_package_segments_counterexample:
  "decrypt_xlsx_agile (sample_agile ''SHA512'' ''0'' (replicate 20 (CHR 0xD0))) []
     sample_password (sample_package 5 10) = Some (Inr (replicate 5 166))
   \<and> spec_agile_package (sample_agile ''SHA512'' ''0'' (replicate 20 (CHR 0xD0))) sha1
       (calculate_block (sample_agile ''SHA512'' ''0'' (replicate 20 (CHR 0xD0)))
          (sample_agile_result ''SHA512'' 0 (replicate 20 (CHR 0xD0)))
          (replicate 20 0x49) key_value_block_key (c_str ''encrypted-key-00''))
       (c_str ''0123456789abcdef'') (sample_package 5 10) = replicate 5 102
   \<and> decrypt_xlsx_agile (sample_agile ''SHA512'' ''16'' (replicate 20 (CHR 0xD0))) []
       sample_password (sample_package 50 10) = Some (Inr (replicate 10 102 @ replicate 40 0))
   \<and> spec_agile_package (sample_agile ''SHA512'' ''16'' (replicate 20 (CHR 0xD0))) sha1
       (calculate_block (sample_agile ''SHA512'' ''16'' (replicate 20 (CHR 0xD0)))
          (sample_agile_result ''SHA512'' 16 (replicate 20 (CHR 0xD0)))
          (replicate 20 0x49) key_value_block_key (c_str ''encrypted-key-00''))
       (c_str ''0123456789abcdef'') (sample_package 50 10) = replicate 10 102"
proof (intro conjI)
  show "decrypt_xlsx_agile (sample_agile ''SHA512'' ''0'' (replicate 20 (CHR 0xD0))) []
     sample_password (sample_package 5 10) = Some (Inr (replicate 5 166))"
    by (simp only: decrypt_xlsx_agile_unfold [OF sample_agile_header_0 sample_agile_h_n_fields]
          sample_agile_decrypt_0)
  show "decrypt_xlsx_agile (sample_agile ''SHA512'' ''16'' (replicate 20 (CHR 0xD0))) []
       sample_password (sample_package 50 10) = Some (Inr (replicate 10 102 @ replicate 40 0))"
    by (simp only: decrypt_xlsx_agile_unfold [OF sample_agile_header_16 sample_agile_h_n_fields]
          sample_agile_decrypt_16)
qed (rule sample_spec_agile_package)+

subsection \<open>The dispatcher\<close>

lemma flags_reserved: "(x :: 32 word) AND 3 \<noteq> 0 \<longleftrightarrow> bit x 0 \<or> bit x 1"
proof -
  have "(3 :: 32 word) = 1 OR 2" by simp
  then have "x AND 3 = (x AND 1) OR (x AND 2)"
    by (simp only: bit.conj_disj_distrib)
  then show ?thesis
    using and_exp_eq_0_iff_not_bit [of x 0] and_exp_eq_0_iff_not_bit [of x 1]
    by (simp add: or_eq_0_iff)
qed

lemma flags_bit: 
  "(x :: 32 word) AND 4 = 0 \<longleftrightarrow> \<not> bit x 2"
  "(x :: 32 word) AND 16 = 0 \<longleftrightarrow> \<not> bit x 4"
  "(x :: 32 word) AND 32 = 0 \<longleftrightarrow> \<not> bit x 5"
  using and_exp_eq_0_iff_not_bit [of x 2] and_exp_eq_0_iff_not_bit [of x 4]
    and_exp_eq_0_iff_not_bit [of x 5]
  by simp_all

lemma read_version_fields:
  assumes "8 \<le> length info"
  shows "(read_int 0 info :: error + (16 word \<times> nat)) = Inr (version_major_of info, 2)"
    and "(read_int 2 info :: error + (16 word \<times> nat)) = Inr (version_minor_of info, 4)"
    and "(read_int 4 info :: error + (32 word \<times> nat)) = Inr (encryption_flags_of info, 8)"
  using assms
  by (simp_all add: read_int_def version_major_of_def version_minor_of_def encryption_flags_of_def)

lemma decrypt_xlsx_routes:
  assumes "bytes \<noteq> []" and "pole_open P bytes = Some storage"
    and "8 \<le> length (file_bytes storage ''EncryptionInfo'')"
  shows "decrypt_xlsx P bytes password =
     (let encryption_info = file_bytes storage ''EncryptionInfo'';
          encrypted_package = file_bytes storage ''EncryptedPackage'';
          major = version_major_of encryption_info;
          minor = version_minor_of encryption_info;
          flags = encryption_flags_of encryption_info
      in if major = 4 \<and> minor = 4 then
           (if flags = 0x40
            then decrypt_xlsx_agile P (drop 8 encryption_info) password encrypted_package
            else Some (Inl (Exception ''bad header'')))
         else if \<not> (minor = 2 \<and> major \<in> {2, 3, 4})
         then Some (Inl (Exception ''unsupported encryption version''))
         else if bit flags 0 \<or> bit flags 1
         then Some (Inl (Exception ''bad header''))
         else if \<not> bit flags 2 \<or> bit flags 4
         then Some (Inl (Exception ''extensible encryption is not supported''))
         else if \<not> bit flags 5
         then Some (Inl (Exception ''not an OOXML document''))
         else decrypt_xlsx_standard P (drop 8 encryption_info) password encrypted_package)"
  using assms(1,2)
  by (simp add: decrypt_xlsx_def Let_def bindE_def read_version_fields [OF assms(3)]
        flags_reserved flags_bit)

lemma sample_container_open:
  "pole_open (sample_container info pkg) bytes = Some (sample_storage info pkg)"
  by (simp add: sample_container_def)

lemma sample_storage_streams:
  "file_bytes (sample_storage info pkg) ''EncryptionInfo'' = info"
  "file_bytes (sample_storage info pkg) ''EncryptedPackage'' = pkg"
  by (simp_all add: file_bytes_def sample_storage_def)

lemma le_bytes16: "le_bytes (w :: 16 word) = [ucast w, ucast (drop_bit 8 w)]"
  by (simp add: le_bytes_def upt_rec)

lemma le_word_le_bytes16 [simp]: "le_word (le_bytes (w :: 16 word)) = w"
  apply (simp add: le_bytes16 le_word_def)
  apply (rule bit_word_eqI)
  subgoal for n
    by (cases "n < 8") (auto simp add: bit_simps)
  done

lemma length_le_bytes16 [simp]: "length (le_bytes (w :: 16 word)) = 2"
  by (simp add: le_bytes_def)

lemma sample_info_fields:
  "8 \<le> length (sample_info major minor flags rest)"
  "version_major_of (sample_info major minor flags rest) = major"
  "version_minor_of (sample_info major minor flags rest) = minor"
  "encryption_flags_of (sample_info major minor flags rest) = flags"
  "drop 8 (sample_info major minor flags rest) = rest"
  by (simp_all add: sample_info_def version_major_of_def version_minor_of_def
        encryption_flags_of_def)

lemma sample_flag_bits:
  "\<not> bit (0x24 :: 32 word) 0" "\<not> bit (0x24 :: 32 word) 1" "bit (0x24 :: 32 word) 2"
  "\<not> bit (0x24 :: 32 word) 4" "bit (0x24 :: 32 word) 5"
  "\<not> bit (0x04 :: 32 word) 0" "\<not> bit (0x04 :: 32 word) 1" "bit (0x04 :: 32 word) 2"
  "\<not> bit (0x04 :: 32 word) 4" "\<not> bit (0x04 :: 32 word) 5"
  "\<not> bit (0x34 :: 32 word) 0" "\<not> bit (0x34 :: 32 word) 1" "bit (0x34 :: 32 word) 2"
  "bit (0x34 :: 32 word) 4"
  by code_simp+

text \<open>
  C7, as amended. For a container that opens and whose \<open>EncryptionInfo\<close> stream has at
  least eight bytes, \<open>decrypt_xlsx\<close> routes on them: with major version 4 and minor
  version 4 it takes the agile path if the flag word is exactly \<open>0x40\<close> and raises ``bad
  header'' otherwise. For every other version it requires minor 2 and major 2, 3 or 4
  (else ``unsupported encryption version''), flag bits 0 and 1 zero (else the same ``bad
  header'' exception as on the agile side), bit 2 set and bit 4 zero (else ``extensible
  encryption is not supported''), bit 5 set (else ``not an OOXML document''), in this
  order, and then takes the standard path. Either path receives the stream without its
  first eight bytes.
\<close>

theorem dispatch_on_version_and_flags:
  assumes "bytes \<noteq> []" and "pole_open P bytes = Some storage"
    and "8 \<le> length (file_bytes storage ''EncryptionInfo'')"
  shows "decrypt_xlsx P bytes password =
     (let encryption_info = file_bytes storage ''EncryptionInfo'';
          encrypted_package = file_bytes storage ''EncryptedPackage'';
          major = version_major_of encryption_info;
          minor = version_minor_of encryption_info;
          flags = encryption_flags_of encryption_info
      in if major = 4 \<and> minor = 4 then
           (if flags = 0x40
            then decrypt_xlsx_agile P (drop 8 encryption_info) password encrypted_package
            else Some (Inl (Exception ''bad header'')))
         else if \<not> (minor = 2 \<and> major \<in> {2, 3, 4})
         then Some (Inl (Exception ''unsupported encryption version''))
         else if bit flags 0 \<or> bit flags 1
         then Some (Inl (Exception ''bad header''))
         else if \<not> bit flags 2 \<or> bit flags 4
         then Some (Inl (Exception ''extensible encryption is not supported''))
         else if \<not> bit flags 5
         then Some (Inl (Exception ''not an OOXML document''))
         else decrypt_xlsx_standard P (drop 8 encryption_info) password encrypted_package)"
  by (rule decrypt_xlsx_routes [OF assms])

theorem dispatch_on_version_and_flags_witness:
  "8 \<le> length (file_bytes (sample_storage (sample_info 4 2 0x24 (sample_standard_header 0x8004))
                    (sample_package 32 16)) ''EncryptionInfo'')
   \<and> decrypt_xlsx (sample_container (sample_info 4 2 0x24 (sample_standard_header 0x8004))
                     (sample_package 32 16)) [0xD0] sample_password
     = decrypt_xlsx_standard (sample_container (sample_info 4 2 0x24 (sample_standard_header 0x8004))
                     (sample_package 32 16)) (sample_standard_header 0x8004) sample_password
         (sample_package 32 16)
   \<and> decrypt_xlsx (sample_container (sample_info 4 4 0x40 []) (sample_package 50 10)) [0xD0]
       sample_password
     = decrypt_xlsx_agile (sample_container (sample_info 4 4 0x40 []) (sample_package 50 10)) []
         sample_password (sample_package 50 10)
   \<and> decrypt_xlsx (sample_container (sample_info 3 2 0x04 []) []) [0xD0] sample_password
     = Some (Inl (Exception ''not an OOXML document''))
   \<and> decrypt_xlsx (sample_container (sample_info 3 2 0x34 []) []) [0xD0] sample_password
     = Some (Inl (Exception ''extensible encryption is not supported''))
   \<and> decrypt_xlsx (sample_container (sample_info 1 2 0x24 []) []) [0xD0] sample_password
     = Some (Inl (Exception ''unsupported encryption version''))"
proof -
  have ne: "[0xD0 :: byte] \<noteq> []" by simp
  have D: "decrypt_xlsx (sample_container (sample_info major minor flags rest) pkg) [0xD0] pw =
     (if major = 4 \<and> minor = 4 then
           (if flags = 0x40
            then decrypt_xlsx_agile (sample_container (sample_info major minor flags rest) pkg)
                   rest pw pkg
            else Some (Inl (Exception ''bad header'')))
         else if \<not> (minor = 2 \<and> major \<in> {2, 3, 4})
         then Some (Inl (Exception ''unsupported encryption version''))
         else if bit flags 0 \<or> bit flags 1
         then Some (Inl (Exception ''bad header''))
         else if \<not> bit flags 2 \<or> bit flags 4
         then Some (Inl (Exception ''extensible encryption is not supported''))
         else if \<not> bit flags 5
         then Some (Inl (Exception ''not an OOXML document''))
         else decrypt_xlsx_standard (sample_container (sample_info major minor flags rest) pkg)
                rest pw pkg)" for major minor flags rest pkg pw
    using dispatch_on_version_and_flags [OF ne sample_container_open,
        of "sample_info major minor flags rest" pkg pw]
    by (simp add: sample_storage_streams sample_info_fields Let_def)
  show ?thesis
    by (simp add: D sample_flag_bits sample_info_fields sample_storage_streams)
qed

text \<open>
  C7 as stated names the failure of every violation on the standard side an
  unsupported-configuration or not-this-format error, and the failure of the agile flag
  test a corrupt-header error. A standard header with reserved bit 0 set raises the very
  exception of the agile flag test.
\<close>

lemma sample_flag_bits_reserved: "bit (0x25 :: 32 word) 0"
  by code_simp

theorem dispatch_on_version_and_flags_counterexample:
  "decrypt_xlsx (sample_container (sample_info 4 2 0x25 (sample_standard_header 0x8004))
                  (sample_package 32 16)) [0xD0] sample_password
     = Some (Inl (Exception ''bad header''))
   \<and> decrypt_xlsx (sample_container (sample_info 4 4 0x41 []) (sample_package 50 10)) [0xD0]
       sample_password
     = Some (Inl (Exception ''bad header''))"
proof -
  have ne: "[0xD0 :: byte] \<noteq> []" by simp
  show ?thesis
    using decrypt_xlsx_routes [OF ne sample_container_open,
        of "sample_info 4 2 0x25 (sample_standard_header 0x8004)" "sample_package 32 16"
           sample_password]
      decrypt_xlsx_routes [OF ne sample_container_open,
        of "sample_info 4 4 0x41 []" "sample_package 50 10" sample_password]
    by (simp add: sample_storage_streams sample_info_fields Let_def sample_flag_bits_reserved)
qed

subsection \<open>The key encryptors of the agile header\<close>

lemma key_encryptor_loop_end:
  "peek evs = end_element_t \<Longrightarrow> key_encryptor_loop P evs any ke = Inr (evs, any, ke)"
  by (subst key_encryptor_loop.simps) simp

lemma key_encryptor_loop_key:
  assumes "well_formed_key P kid"
  shows "\<exists>ke'. key_encryptor_loop P (encrypted_key_element P kid @ evs) any ke =
           key_encryptor_loop P evs True ke'"
proof -
  obtain attrs close where kid: "kid = (attrs, close)" by (cases kid)
  from assms obtain ke' where
    r: "read_encrypted_key P (start_element (xmlns_p P) ''encryptedKey'' attrs) = Inr ke'"
    and c: "type_of close = end_element_t"
    by (auto simp add: well_formed_key_def kid split: sum.splits)
  have "key_encryptor_loop P (encrypted_key_element P kid @ evs) any ke =
           key_encryptor_loop P evs True ke'"
    by (subst key_encryptor_loop.simps)
       (simp add: kid encrypted_key_element_def peek_def next_expect_def r c)
  then show ?thesis ..
qed

lemma key_encryptor_loop_unsupported:
  assumes "\<forall>kid \<in> set kids. well_formed_key P kid"
    and "\<not> (ns = xmlns_p P \<and> n = ''encryptedKey'')"
  shows "key_encryptor_loop P
           (concat (map (encrypted_key_element P) kids) @ start_element ns n attrs # rest) any ke
         = Inl (Unsupported ''other encryption key types not supported'')"
  using assms(1)
proof (induction kids arbitrary: any ke)
  case Nil
  from assms(2) show ?case
    by (subst key_encryptor_loop.simps) (auto simp add: peek_def next_expect_def)
next
  case (Cons kid kids)
  then have wf: "well_formed_key P kid" and rest: "\<forall>kid \<in> set kids. well_formed_key P kid"
    by simp_all
  from key_encryptor_loop_key [OF wf, of
      "concat (map (encrypted_key_element P) kids) @ start_element ns n attrs # rest" any ke]
  obtain ke' where "key_encryptor_loop P
      (encrypted_key_element P kid @ concat (map (encrypted_key_element P) kids)
         @ start_element ns n attrs # rest) any ke =
      key_encryptor_loop P
        (concat (map (encrypted_key_element P) kids) @ start_element ns n attrs # rest) True ke'"
    by blast
  with Cons.IH [OF rest, of True ke'] show ?case by simp
qed

lemma key_encryptor_loop_success:
  "key_encryptor_loop P evs any ke = Inr (rest, any', ke') \<Longrightarrow>
   \<exists>kids. evs = concat (map (encrypted_key_element P) kids) @ rest
          \<and> (\<forall>kid \<in> set kids. well_formed_key P kid)
          \<and> peek rest = end_element_t \<and> (any' \<longleftrightarrow> any \<or> kids \<noteq> [])"
proof (induction P evs any ke rule: key_encryptor_loop.induct)
  case (1 P evs any ke)
  show ?case
  proof (cases "peek evs \<noteq> end_element_t")
    case False
    with "1.prems" have "rest = evs" "any' = any"
      by (simp_all add: key_encryptor_loop_end)
    with False show ?thesis
      by (intro exI [of _ "[]"]) simp
  next
    case True
    from "1.prems" True obtain ev evs1 where n1: "next_expect start_element_t evs = Inr (ev, evs1)"
      by (subst (asm) key_encryptor_loop.simps) (auto split: sum.splits)
    from "1.prems" True n1 have rec: "namespace_of ev = xmlns_p P \<and> name ev = ''encryptedKey''"
      by (subst (asm) key_encryptor_loop.simps) (auto split: if_splits)
    from "1.prems" True n1 rec obtain ke1 where r: "read_encrypted_key P ev = Inr ke1"
      by (subst (asm) key_encryptor_loop.simps) (auto split: sum.splits)
    from "1.prems" True n1 rec r obtain ev2 evs2 where
      n2: "next_expect end_element_t evs1 = Inr (ev2, evs2)"
      by (subst (asm) key_encryptor_loop.simps) (auto split: sum.splits)
    from "1.prems" True n1 rec r n2 have
      call: "key_encryptor_loop P evs2 True ke1 = Inr (rest, any', ke')"
      by (subst (asm) key_encryptor_loop.simps) simp
    from "1.IH" [OF True n1 refl rec r n2 refl call]
    obtain kids where kids: "evs2 = concat (map (encrypted_key_element P) kids) @ rest"
      "\<forall>kid \<in> set kids. well_formed_key P kid" "peek rest = end_element_t" "any'"
      by blast
    from n1 obtain attrs where ev: "ev = start_element (xmlns_p P) ''encryptedKey'' attrs"
      and evs: "evs = ev # evs1"
      using rec by (cases ev) (auto simp add: next_expect_def split: list.splits if_splits)
    from n2 have evs1: "evs1 = ev2 # evs2" and t2: "type_of ev2 = end_element_t"
      by (auto simp add: next_expect_def split: list.splits if_splits)
    have wf: "well_formed_key P (attrs, ev2)"
      using r t2 by (simp add: well_formed_key_def ev)
    have "evs = concat (map (encrypted_key_element P) ((attrs, ev2) # kids)) @ rest"
      by (simp add: evs evs1 ev kids(1) encrypted_key_element_def)
    moreover have "\<forall>kid \<in> set ((attrs, ev2) # kids). well_formed_key P kid"
      using wf kids(2) by simp
    moreover have "any' \<longleftrightarrow> any \<or> (attrs, ev2) # kids \<noteq> []"
      using kids(4) by simp
    ultimately show ?thesis using kids(3) by blast
  qed
qed

lemma sample_preambles:
  "agile_preamble sample_collaborators (sample_events_with_certificate 7) =
     Inr (key_data (sample_agile_result ''SHA512'' 16 ''verifier-hash-value-''),
          data_integrity (sample_agile_result ''SHA512'' 16 ''verifier-hash-value-''),
          drop 7 (sample_events_with_certificate 7))"
  "agile_preamble sample_collaborators (sample_events_with_certificate 9) =
     Inr (key_data (sample_agile_result ''SHA512'' 16 ''verifier-hash-value-''),
          data_integrity (sample_agile_result ''SHA512'' 16 ''verifier-hash-value-''),
          drop 7 (sample_events_with_certificate 9))"
  "agile_preamble sample_collaborators sample_events_without_key =
     Inr (key_data (sample_agile_result ''SHA512'' 16 ''verifier-hash-value-''),
          data_integrity (sample_agile_result ''SHA512'' 16 ''verifier-hash-value-''),
          drop 7 sample_events_without_key)"
  "agile_preamble sample_collaborators (sample_agile_events ''SHA512'' ''16'' ''verifier-hash-value-'') =
     Inr (key_data (sample_agile_result ''SHA512'' 16 ''verifier-hash-value-''),
          data_integrity (sample_agile_result ''SHA512'' 16 ''verifier-hash-value-''),
          drop 7 (sample_agile_events ''SHA512'' ''16'' ''verifier-hash-value-''))"
  by code_simp+

lemma sample_bodies:
  "drop 7 (sample_events_with_certificate 7) =
     concat (map (encrypted_key_element sample_collaborators) [])
     @ start_element ''http://schemas.microsoft.com/office/2006/keyEncryptor/certificate''
         ''encryptedKey'' [(''encryptedKeyValue'', ''certificate-key'')]
     # drop 8 (sample_events_with_certificate 7)"
  "drop 7 (sample_events_with_certificate 9) =
     concat (map (encrypted_key_element sample_collaborators)
        [(attributes (sample_agile_events ''SHA512'' ''16'' ''verifier-hash-value-'' ! 7),
          sample_agile_events ''SHA512'' ''16'' ''verifier-hash-value-'' ! 8)])
     @ start_element ''http://schemas.microsoft.com/office/2006/keyEncryptor/certificate''
         ''encryptedKey'' [(''encryptedKeyValue'', ''certificate-key'')]
     # drop 10 (sample_events_with_certificate 9)"
  "peek (drop 7 sample_events_without_key) = end_element_t"
  "well_formed_key sample_collaborators
     (attributes (sample_agile_events ''SHA512'' ''16'' ''verifier-hash-value-'' ! 7),
      sample_agile_events ''SHA512'' ''16'' ''verifier-hash-value-'' ! 8)"
  "agile_header sample_collaborators (sample_agile_events ''SHA512'' ''16'' ''verifier-hash-value-'')
     = Inr (sample_agile_result ''SHA512'' 16 ''verifier-hash-value-'')"
  by code_simp+

text \<open>
  C8. Let the decoder have read the header down to the start tag of \<open>keyEncryptor\<close>, with
  \<open>body\<close> the events that follow. If \<open>body\<close> is a run of well-formed password
  \<open>encryptedKey\<close> children followed by the start tag of any other element, the decoder
  raises \<open>xlnt::unsupported\<close>. If \<open>body\<close> starts with an end tag, so that there is no
  child at all, it throws ``no password key in keyEncryptors''. And whenever the
  decoder succeeds, \<open>body\<close> is a run of at least one well-formed password
  \<open>encryptedKey\<close> child, and nothing else, up to an end tag.
\<close>

theorem key_encryptor_children:
  assumes "agile_preamble P evs = Inr (kd, di, body)"
  shows "(body = concat (map (encrypted_key_element P) kids) @ start_element ns n attrs # rest
            \<and> (\<forall>kid \<in> set kids. well_formed_key P kid)
            \<and> \<not> (ns = xmlns_p P \<and> n = ''encryptedKey'')
          \<longrightarrow> agile_header P evs = Inl (Unsupported ''other encryption key types not supported''))
       \<and> (peek body = end_element_t
          \<longrightarrow> agile_header P evs = Inl (Thrown ''no password key in keyEncryptors''))
       \<and> (agile_header P evs = Inr result
          \<longrightarrow> (\<exists>keys tail. keys \<noteq> [] \<and> (\<forall>kid \<in> set keys. well_formed_key P kid)
                 \<and> body = concat (map (encrypted_key_element P) keys) @ tail
                 \<and> peek tail = end_element_t))"
proof (intro conjI impI)
  assume "body = concat (map (encrypted_key_element P) kids) @ start_element ns n attrs # rest
            \<and> (\<forall>kid \<in> set kids. well_formed_key P kid)
            \<and> \<not> (ns = xmlns_p P \<and> n = ''encryptedKey'')"
  then show "agile_header P evs = Inl (Unsupported ''other encryption key types not supported'')"
    by (simp add: agile_header_def assms bindE_def key_encryptor_loop_unsupported)
next
  assume "peek body = end_element_t"
  then show "agile_header P evs = Inl (Thrown ''no password key in keyEncryptors'')"
    by (simp add: agile_header_def assms bindE_def key_encryptor_loop_end)
next
  assume ok: "agile_header P evs = Inr result"
  then obtain tail any' ke' where
    loop: "key_encryptor_loop P body False no_key_encryptor = Inr (tail, any', ke')"
    and any: "any'"
    by (auto simp add: agile_header_def assms bindE_def split: sum.splits if_splits)
  from key_encryptor_loop_success [OF loop] any
  show "\<exists>keys tail. keys \<noteq> [] \<and> (\<forall>kid \<in> set keys. well_formed_key P kid)
                 \<and> body = concat (map (encrypted_key_element P) keys) @ tail
                 \<and> peek tail = end_element_t"
    by auto
qed

theorem key_encryptor_children_witness:
  "agile_header sample_collaborators (sample_events_with_certificate 7)
     = Inl (Unsupported ''other encryption key types not supported'')
   \<and> agile_header sample_collaborators (sample_events_with_certificate 9)
     = Inl (Unsupported ''other encryption key types not supported'')
   \<and> agile_header sample_collaborators sample_events_without_key
     = Inl (Thrown ''no password key in keyEncryptors'')
   \<and> agile_header sample_collaborators
       (sample_agile_events ''SHA512'' ''16'' ''verifier-hash-value-'')
     = Inr (sample_agile_result ''SHA512'' 16 ''verifier-hash-value-'')
   \<and> (\<exists>keys tail. keys \<noteq> [] \<and> (\<forall>kid \<in> set keys. well_formed_key sample_collaborators kid)
        \<and> drop 7 (sample_agile_events ''SHA512'' ''16'' ''verifier-hash-value-'')
            = concat (map (encrypted_key_element sample_collaborators) keys) @ tail
        \<and> peek tail = end_element_t)"
proof (intro conjI)
  have ns: "\<not> (''http://schemas.microsoft.com/office/2006/keyEncryptor/certificate''
               = xmlns_p sample_collaborators \<and> ''encryptedKey'' = ''encryptedKey'')"
    by (simp add: sample_collaborators_def)
  show "agile_header sample_collaborators (sample_events_with_certificate 7)
     = Inl (Unsupported ''other encryption key types not supported'')"
    using key_encryptor_children [OF sample_preambles(1), THEN conjunct1, rule_format,
        OF conjI [OF sample_bodies(1) conjI [OF _ ns]]]
    by simp
  show "agile_header sample_collaborators (sample_events_with_certificate 9)
     = Inl (Unsupported ''other encryption key types not supported'')"
    using key_encryptor_children [OF sample_preambles(2), THEN conjunct1, rule_format,
        OF conjI [OF sample_bodies(2) conjI [OF _ ns]]] sample_bodies(4)
    by simp
  show "agile_header sample_collaborators sample_events_without_key
     = Inl (Thrown ''no password key in keyEncryptors'')"
    using key_encryptor_children [OF sample_preambles(3), THEN conjunct2, THEN conjunct1]
      sample_bodies(3)
    by simp
  show "agile_header sample_collaborators
       (sample_agile_events ''SHA512'' ''16'' ''verifier-hash-value-'')
     = Inr (sample_agile_result ''SHA512'' 16 ''verifier-hash-value-'')"
    by (rule sample_bodies(5))
  show "\<exists>keys tail. keys \<noteq> [] \<and> (\<forall>kid \<in> set keys. well_formed_key sample_collaborators kid)
        \<and> drop 7 (sample_agile_events ''SHA512'' ''16'' ''verifier-hash-value-'')
            = concat (map (encrypted_key_element sample_collaborators) keys) @ tail
        \<and> peek tail = end_element_t"
    using key_encryptor_children [OF sample_preambles(4), THEN conjunct2, THEN conjunct2]
      sample_bodies(5)
    by simp
qed

subsection \<open>The hash algorithm named by \<open>keyData\<close>\<close>

lemma agile_segments_key_encryptor:
  "key_encryptor r' = key_encryptor r \<Longrightarrow>
   agile_segments P r' key ss pkg i buf out = agile_segments P r key ss pkg i buf out"
proof (induction "length pkg - i" arbitrary: i buf out rule: less_induct)
  case less
  show ?case
  proof (cases "i < length pkg")
    case True
    then have "length pkg - (i + ole_segment_length) < length pkg - i"
      by (simp add: ole_segment_length_def)
    from less(1) [OF this less(2)] True less(2) show ?thesis
      by (subst agile_segments.simps, subst (2) agile_segments.simps) (simp add: Let_def)
  next
    case False
    then show ?thesis
      by (subst agile_segments.simps, subst (2) agile_segments.simps) simp
  qed
qed

text \<open>
  What the code after the header reads of \<open>result\<close>: the key encryptor, and of the key
  data the salt and its size.
\<close>

lemma agile_verify_and_decrypt_reads:
  assumes "key_encryptor r' = key_encryptor r"
    and "kd_salt_size (key_data r') = kd_salt_size (key_data r)"
    and "kd_salt_value (key_data r') = kd_salt_value (key_data r)"
  shows "agile_verify_and_decrypt P r' h_n pkg = agile_verify_and_decrypt P r h_n pkg"
  using assms agile_segments_key_encryptor [OF assms(1)]
  by (simp add: agile_verify_and_decrypt_def agile_package_def calculated_verifier_def
        expected_verifier_def calculate_block_def Let_def)

lemma attribute_same:
  assumes "map_of attrs1 a = map_of attrs2 a"
  shows "attribute a (start_element ns n attrs1) = attribute a (start_element ns n attrs2)"
    and "attribute_size_t P a (start_element ns n attrs1)
         = attribute_size_t P a (start_element ns n attrs2)"
  using assms by (simp_all add: attribute_def attribute_size_t_def)

lemma read_key_data_hash_algorithm:
  assumes same: "\<forall>a. a \<noteq> ''hashAlgorithm'' \<longrightarrow> map_of attrs1 a = map_of attrs2 a"
    and v1: "map_of attrs1 ''hashAlgorithm'' = Some v1"
    and v2: "map_of attrs2 ''hashAlgorithm'' = Some v2"
  shows "read_key_data P (start_element ns n attrs2) =
           map_sum id (\<lambda>kd. kd\<lparr>kd_hash_algorithm := v2\<rparr>)
             (read_key_data P (start_element ns n attrs1))"
proof -
  have a: "attribute ''hashAlgorithm'' (start_element ns n attrs1) = Inr v1"
    "attribute ''hashAlgorithm'' (start_element ns n attrs2) = Inr v2"
    using v1 v2 by (simp_all add: attribute_def)
  have s: "attribute_size_t P ''saltSize'' (start_element ns n attrs1)
             = attribute_size_t P ''saltSize'' (start_element ns n attrs2)"
    "attribute_size_t P ''blockSize'' (start_element ns n attrs1)
             = attribute_size_t P ''blockSize'' (start_element ns n attrs2)"
    "attribute_size_t P ''keyBits'' (start_element ns n attrs1)
             = attribute_size_t P ''keyBits'' (start_element ns n attrs2)"
    "attribute_size_t P ''hashSize'' (start_element ns n attrs1)
             = attribute_size_t P ''hashSize'' (start_element ns n attrs2)"
    "attribute ''cipherAlgorithm'' (start_element ns n attrs1)
             = attribute ''cipherAlgorithm'' (start_element ns n attrs2)"
    "attribute ''cipherChaining'' (start_element ns n attrs1)
             = attribute ''cipherChaining'' (start_element ns n attrs2)"
    "attribute ''saltValue'' (start_element ns n attrs1)
             = attribute ''saltValue'' (start_element ns n attrs2)"
    by (rule attribute_same, simp add: same)+
  show ?thesis
    by (simp add: read_key_data_def s a bindE_def split: sum.splits)
qed

lemma agile_header_hash_algorithm:
  assumes same: "\<forall>a. a \<noteq> ''hashAlgorithm'' \<longrightarrow> map_of attrs1 a = map_of attrs2 a"
    and v1: "map_of attrs1 ''hashAlgorithm'' = Some v1"
    and v2: "map_of attrs2 ''hashAlgorithm'' = Some v2"
  shows "agile_header P (e # start_element ns n attrs2 # rest) =
           map_sum id (\<lambda>r. r\<lparr>key_data := (key_data r)\<lparr>kd_hash_algorithm := v2\<rparr>\<rparr>)
             (agile_header P (e # start_element ns n attrs1 # rest))"
  by (simp add: agile_header_def agile_preamble_def next_expect_named_def bindE_def
        read_key_data_hash_algorithm [OF same v1 v2]
      split: sum.splits prod.splits)

lemma agile_header_stores_hash_algorithm:
  assumes "agile_header P (e # start_element ns n attrs # rest) = Inr result"
    and "map_of attrs ''hashAlgorithm'' = Some v"
  shows "kd_hash_algorithm (key_data result) = v"
proof -
  have a: "attribute ''hashAlgorithm'' (start_element ns' n' attrs) = Inr v" for ns' n'
    using assms(2) by (simp add: attribute_def)
  from assms(1) show ?thesis
    by (auto simp add: agile_header_def agile_preamble_def next_expect_named_def bindE_def
          read_key_data_def a split: sum.splits prod.splits if_splits)
qed

lemma sample_agile_header_other:
  "agile_header (sample_agile h ''16'' v) (xml_events (sample_agile h ''16'' v) [1])
     = Inr (sample_agile_result ''SHA1'' 16 v)"
  by code_simp

lemma sample_package_5_prefix:
  "unat (le_word (take 8 (sample_package 5 10)) :: 64 word) \<le> length (sample_package 5 10) - 8"
  by (rule sample_package_5)

text \<open>
  The agile path after the header is the scheme of the specification with every hash
  taken with the algorithm of the key encryptor.
\<close>

lemma decrypt_xlsx_agile_refines:
  assumes hdr: "agile_header P (xml_events P encryption_info) = Inr result"
    and dl: "digest_lengths P" and cbc: "cbc_covers P"
    and spin0: "0 < unat (ke_spin_count (key_encryptor result))"
    and spin: "unat (ke_spin_count (key_encryptor result)) < 2 ^ 32"
    and salt: "unat (kd_salt_size (key_data result)) = length (kd_salt_value (key_data result))"
    and nowrap: "length (kd_salt_value (key_data result)) + 4 < 2 ^ 64"
    and pk: "8 \<le> length encrypted_package"
    and prefix: "unat (le_word (take 8 encrypted_package) :: 64 word)
                   \<le> length encrypted_package - 8"
  shows "decrypt_xlsx_agile P encryption_info password encrypted_package =
           Some (spec_agile_decrypt P (ke_hash (key_encryptor result)) result password
                   encrypted_package)"
proof -
  let ?ke = "key_encryptor result"
  let ?alg = "ke_hash ?ke"
  define h_n where
    "h_n = spec_derive (hash P ?alg) (ke_salt_value ?ke) password (unat (ke_spin_count ?ke))"
  have len: "length (hash P ?alg x) = digest_size ?alg" for x
    by (rule length_hash [OF dl])
  from spin0 have nz: "ke_spin_count ?ke \<noteq> 0" by auto
  from derive_h_n_rounds [of "hash P ?alg" "digest_size ?alg" "ke_spin_count ?ke"
      "ke_salt_value ?ke" password, OF len spin] nz
  have d: "derive_h_n (hash P ?alg) (ke_salt_value ?ke) password (ke_spin_count ?ke)
             = Some (Inr h_n)"
    by (simp add: h_n_def)
  have u: "decrypt_xlsx_agile P encryption_info password encrypted_package =
             Some (agile_verify_and_decrypt P result h_n encrypted_package)"
    by (rule decrypt_xlsx_agile_unfold [OF hdr d])
  note pkg = agile_package_refines [OF dl cbc salt nowrap pk prefix, of h_n]
  have "agile_verify_and_decrypt P result h_n encrypted_package =
          spec_agile_decrypt P ?alg result password encrypted_package"
    unfolding agile_verify_and_decrypt_def pkg
    by (auto simp add: spec_agile_decrypt_def spec_block_key_def calculated_verifier_def
          expected_verifier_def calculate_block_def resize_def Let_def h_n_def)
  with u show ?thesis by simp
qed

lemma sample_spec_agile_decrypt:
  "spec_agile_decrypt (sample_agile h s (replicate 20 (CHR 0xD0))) sha1
     (sample_agile_result h 16 (replicate 20 (CHR 0xD0))) sample_password (sample_package 5 10)
   = Inr (replicate 5 102)"
  "spec_agile_decrypt (sample_agile h s (replicate 20 (CHR 0xD0))) sha512
     (sample_agile_result h 16 (replicate 20 (CHR 0xD0))) sample_password (sample_package 5 10)
   = Inl (Exception ''bad password'')"
  by code_simp+

lemma sample_spec_agile_package_sha512:
  "spec_agile_package (sample_agile h s v) sha512
     (calculate_block (sample_agile h s v) (sample_agile_result h n v) (replicate 20 0x49)
        key_value_block_key (c_str ''encrypted-key-00''))
     (c_str ''0123456789abcdef'') (sample_package 5 10) = replicate 5 22"
  by code_simp

text \<open>
  C10. On the agile path every hash after the header is taken with
  \<open>result.key_encryptor.hash\<close>: for a decoded header with a spin count between 1 and
  \<open>2^32 - 1\<close>, a \<open>saltSize\<close> of \<open>keyData\<close> that is the length of its salt, and a package
  whose prefix does not exceed the bytes after it, \<open>decrypt_xlsx_agile\<close> is the scheme of
  the specification run with that algorithm, in the key derivation chain, in the three
  block keys, in the verifier and in the initialisation vector of each segment. The
  \<open>hashAlgorithm\<close> attribute of \<open>keyData\<close> is read and stored in
  \<open>result.key_data.hash_algorithm\<close> and nothing else: two agile headers whose events
  differ only in the value of that attribute decrypt to the same outcome, for every
  password and package.
\<close>

theorem key_data_hash_algorithm_unused:
  assumes e1: "xml_events P encryption_info1 = e # start_element ns n attrs1 # rest"
    and e2: "xml_events P encryption_info2 = e # start_element ns n attrs2 # rest"
    and same: "\<forall>a. a \<noteq> ''hashAlgorithm'' \<longrightarrow> map_of attrs1 a = map_of attrs2 a"
    and v1: "map_of attrs1 ''hashAlgorithm'' = Some v1"
    and v2: "map_of attrs2 ''hashAlgorithm'' = Some v2"
  shows "(\<forall>result. agile_header P (xml_events P encryption_info1) = Inr result
               \<and> digest_lengths P \<and> cbc_covers P
               \<and> 0 < unat (ke_spin_count (key_encryptor result))
               \<and> unat (ke_spin_count (key_encryptor result)) < 2 ^ 32
               \<and> unat (kd_salt_size (key_data result)) = length (kd_salt_value (key_data result))
               \<and> length (kd_salt_value (key_data result)) + 4 < 2 ^ 64
               \<and> 8 \<le> length encrypted_package
               \<and> unat (le_word (take 8 encrypted_package) :: 64 word)
                    \<le> length encrypted_package - 8
               \<longrightarrow> decrypt_xlsx_agile P encryption_info1 password encrypted_package =
                     Some (spec_agile_decrypt P (ke_hash (key_encryptor result)) result password
                             encrypted_package))
         \<and> decrypt_xlsx_agile P encryption_info1 password encrypted_package
           = decrypt_xlsx_agile P encryption_info2 password encrypted_package
         \<and> (\<forall>result. agile_header P (xml_events P encryption_info1) = Inr result
               \<longrightarrow> kd_hash_algorithm (key_data result) = v1)
         \<and> (\<forall>result. agile_header P (xml_events P encryption_info2) = Inr result
               \<longrightarrow> kd_hash_algorithm (key_data result) = v2)"
proof (intro conjI allI impI)
  fix result
  assume "agile_header P (xml_events P encryption_info1) = Inr result
               \<and> digest_lengths P \<and> cbc_covers P
               \<and> 0 < unat (ke_spin_count (key_encryptor result))
               \<and> unat (ke_spin_count (key_encryptor result)) < 2 ^ 32
               \<and> unat (kd_salt_size (key_data result)) = length (kd_salt_value (key_data result))
               \<and> length (kd_salt_value (key_data result)) + 4 < 2 ^ 64
               \<and> 8 \<le> length encrypted_package
               \<and> unat (le_word (take 8 encrypted_package) :: 64 word)
                    \<le> length encrypted_package - 8"
  then show "decrypt_xlsx_agile P encryption_info1 password encrypted_package =
                     Some (spec_agile_decrypt P (ke_hash (key_encryptor result)) result password
                             encrypted_package)"
    by (intro decrypt_xlsx_agile_refines) simp_all
next
  note h = agile_header_hash_algorithm [OF same v1 v2, of P e ns n rest]
  show "decrypt_xlsx_agile P encryption_info1 password encrypted_package
           = decrypt_xlsx_agile P encryption_info2 password encrypted_package"
  proof (cases "agile_header P (e # start_element ns n attrs1 # rest)")
    case (Inl err)
    with h show ?thesis by (simp add: decrypt_xlsx_agile_def e1 e2)
  next
    case (Inr r)
    let ?r' = "r\<lparr>key_data := (key_data r)\<lparr>kd_hash_algorithm := v2\<rparr>\<rparr>"
    from h Inr have h2: "agile_header P (e # start_element ns n attrs2 # rest) = Inr ?r'"
      by simp
    have "agile_verify_and_decrypt P ?r' h_n encrypted_package
            = agile_verify_and_decrypt P r h_n encrypted_package" for h_n
      by (rule agile_verify_and_decrypt_reads) simp_all
    then show ?thesis
      by (simp add: decrypt_xlsx_agile_def e1 e2 Inr h2)
  qed
next
  fix result
  assume "agile_header P (xml_events P encryption_info1) = Inr result"
  then show "kd_hash_algorithm (key_data result) = v1"
    unfolding e1 by (rule agile_header_stores_hash_algorithm) (rule v1)
next
  fix result
  assume "agile_header P (xml_events P encryption_info2) = Inr result"
  then show "kd_hash_algorithm (key_data result) = v2"
    unfolding e2 by (rule agile_header_stores_hash_algorithm) (rule v2)
qed

text \<open>
  The sample header names \<open>SHA512\<close> in \<open>keyData\<close> and \<open>SHA1\<close> in the key encryptor, and
  the stand-ins for the two digests differ. The outcome is the one of the scheme run
  with SHA-1; run with SHA-512 the scheme refuses the password, and with SHA-512 in the
  initialisation vector alone the plaintext would be another.
\<close>

theorem key_data_hash_algorithm_unused_witness:
  "agile_header (sample_agile ''SHA512'' ''16'' (replicate 20 (CHR 0xD0)))
     (xml_events (sample_agile ''SHA512'' ''16'' (replicate 20 (CHR 0xD0))) [])
     = Inr (sample_agile_result ''SHA512'' 16 (replicate 20 (CHR 0xD0)))
   \<and> agile_header (sample_agile ''SHA512'' ''16'' (replicate 20 (CHR 0xD0)))
     (xml_events (sample_agile ''SHA512'' ''16'' (replicate 20 (CHR 0xD0))) [1])
     = Inr (sample_agile_result ''SHA1'' 16 (replicate 20 (CHR 0xD0)))
   \<and> ke_hash (key_encryptor (sample_agile_result ''SHA512'' 16 (replicate 20 (CHR 0xD0)))) = sha1
   \<and> decrypt_xlsx_agile (sample_agile ''SHA512'' ''16'' (replicate 20 (CHR 0xD0))) []
       sample_password (sample_package 5 10)
     = Some (spec_agile_decrypt (sample_agile ''SHA512'' ''16'' (replicate 20 (CHR 0xD0))) sha1
               (sample_agile_result ''SHA512'' 16 (replicate 20 (CHR 0xD0))) sample_password
               (sample_package 5 10))
   \<and> spec_agile_decrypt (sample_agile ''SHA512'' ''16'' (replicate 20 (CHR 0xD0))) sha1
       (sample_agile_result ''SHA512'' 16 (replicate 20 (CHR 0xD0))) sample_password
       (sample_package 5 10)
     = Inr (replicate 5 102)
   \<and> spec_agile_decrypt (sample_agile ''SHA512'' ''16'' (replicate 20 (CHR 0xD0))) sha512
       (sample_agile_result ''SHA512'' 16 (replicate 20 (CHR 0xD0))) sample_password
       (sample_package 5 10)
     = Inl (Exception ''bad password'')
   \<and> spec_agile_package (sample_agile ''SHA512'' ''16'' (replicate 20 (CHR 0xD0))) sha512
       (calculate_block (sample_agile ''SHA512'' ''16'' (replicate 20 (CHR 0xD0)))
          (sample_agile_result ''SHA512'' 16 (replicate 20 (CHR 0xD0)))
          (replicate 20 0x49) key_value_block_key (c_str ''encrypted-key-00''))
       (c_str ''0123456789abcdef'') (sample_package 5 10)
     = replicate 5 22
   \<and> decrypt_xlsx_agile (sample_agile ''SHA512'' ''16'' (replicate 20 (CHR 0xD0))) []
       sample_password (sample_package 50 10)
     = decrypt_xlsx_agile (sample_agile ''SHA512'' ''16'' (replicate 20 (CHR 0xD0))) [1]
       sample_password (sample_package 50 10)
   \<and> decrypt_xlsx_agile (sample_agile ''SHA512'' ''16'' (replicate 20 (CHR 0xD0))) [1]
       sample_password (sample_package 50 10)
     = Some (Inr (replicate 10 102 @ replicate 40 0))"
proof -
  let ?P = "sample_agile ''SHA512'' ''16'' (replicate 20 (CHR 0xD0))"
  let ?R = "sample_agile_result ''SHA512'' 16 (replicate 20 (CHR 0xD0))"
  let ?attrs = "\<lambda>h. [(''saltSize'', ''16''), (''blockSize'', ''16''), (''keyBits'', ''128''),
         (''hashSize'', ''20''), (''cipherAlgorithm'', ''AES''),
         (''cipherChaining'', ''ChainingModeCBC''), (''hashAlgorithm'', h),
         (''saltValue'', ''0123456789abcdef'')]"
  have e1: "xml_events ?P [] =
      start_element (xmlns sample_collaborators) ''encryption'' []
      # start_element (xmlns sample_collaborators) ''keyData'' (?attrs ''SHA512'')
      # drop 2 (sample_agile_events ''SHA512'' ''16'' (replicate 20 (CHR 0xD0)))"
    by (simp add: sample_agile_def sample_agile_events_def)
  have e2: "xml_events ?P [1] =
      start_element (xmlns sample_collaborators) ''encryption'' []
      # start_element (xmlns sample_collaborators) ''keyData'' (?attrs ''SHA1'')
      # drop 2 (sample_agile_events ''SHA512'' ''16'' (replicate 20 (CHR 0xD0)))"
    by (simp add: sample_agile_def sample_agile_events_def)
  have same: "\<forall>a. a \<noteq> ''hashAlgorithm'' \<longrightarrow> map_of (?attrs ''SHA512'') a = map_of (?attrs ''SHA1'') a"
    by simp
  have v1: "map_of (?attrs ''SHA512'') ''hashAlgorithm'' = Some ''SHA512''" by simp
  have v2: "map_of (?attrs ''SHA1'') ''hashAlgorithm'' = Some ''SHA1''" by simp
  have f: "ke_hash (key_encryptor ?R) = sha1"
    by (simp add: sample_agile_result_def)
  have hyps: "agile_header ?P (xml_events ?P []) = Inr ?R
       \<and> digest_lengths ?P \<and> cbc_covers ?P
       \<and> 0 < unat (ke_spin_count (key_encryptor ?R))
       \<and> unat (ke_spin_count (key_encryptor ?R)) < 2 ^ 32
       \<and> unat (kd_salt_size (key_data ?R)) = length (kd_salt_value (key_data ?R))
       \<and> length (kd_salt_value (key_data ?R)) + 4 < 2 ^ 64
       \<and> 8 \<le> length (sample_package 5 10)
       \<and> unat (le_word (take 8 (sample_package 5 10)) :: 64 word)
            \<le> length (sample_package 5 10) - 8"
  proof (intro conjI)
    show "agile_header ?P (xml_events ?P []) = Inr ?R"
      by (rule sample_agile_header_16)
    show "8 \<le> length (sample_package 5 10)"
      by (rule sample_package_5)
    show "unat (le_word (take 8 (sample_package 5 10)) :: 64 word)
            \<le> length (sample_package 5 10) - 8"
      by (rule sample_package_5)
  qed (simp_all add: sample_agile_result_def c_str_def)
  from key_data_hash_algorithm_unused [OF e1 e2 same v1 v2, THEN conjunct1, rule_format, OF hyps,
      of sample_password]
  have pinned: "decrypt_xlsx_agile ?P [] sample_password (sample_package 5 10)
     = Some (spec_agile_decrypt ?P sha1 ?R sample_password (sample_package 5 10))"
    unfolding f .
  from key_data_hash_algorithm_unused [OF e1 e2 same v1 v2, THEN conjunct2, THEN conjunct1,
      of sample_password "sample_package 50 10"]
  have eq: "decrypt_xlsx_agile ?P [] sample_password (sample_package 50 10)
     = decrypt_xlsx_agile ?P [1] sample_password (sample_package 50 10)" .
  have "decrypt_xlsx_agile ?P [] sample_password (sample_package 50 10)
          = Some (Inr (replicate 10 102 @ replicate 40 0))"
    by (simp only: decrypt_xlsx_agile_unfold [OF sample_agile_header_16 sample_agile_h_n_fields]
          sample_agile_decrypt_16)
  with eq pinned f sample_agile_header_16 [of "''SHA512''" "replicate 20 (CHR 0xD0)"]
    sample_agile_header_other [of "''SHA512''" "replicate 20 (CHR 0xD0)"]
  show ?thesis
    by (simp add: sample_spec_agile_decrypt sample_spec_agile_package_sha512)
qed

subsection \<open>Empty input\<close>

lemma sample_from_bytes_pw: "from_bytes sample_collaborators ''pw'' = Some [0x70, 0x77]"
  by (simp add: sample_collaborators_def sample_from_bytes_def)

lemma sample_from_bytes_invalid: "from_bytes sample_collaborators [CHR 0xFF] = None"
  by (simp add: sample_collaborators_def sample_from_bytes_def)

text \<open>
  C9, as amended. For every UTF-16 password, \<open>::decrypt_xlsx\<close> on a container of no bytes
  raises the ``empty file'' exception. The container reader is a parameter of the model
  and the equation holds whatever it is: the result is fixed before \<open>POLE::Storage\<close> is
  constructed or opened. Through \<open>xlnt::detail::decrypt_xlsx\<close>, which converts the
  password first, the same holds for every password that \<open>utf8_to_utf16\<close> converts; for
  a password that it does not convert, the call ends in the \<open>std::range_error\<close> of the
  conversion, and the container is not looked at.
\<close>

theorem decrypt_xlsx_empty_input:
  "decrypt_xlsx P [] password = Some (Inl (Exception ''empty file''))
   \<and> (utf8_to_utf16 P utf8_password = Inr converted \<longrightarrow>
        xlnt_detail_decrypt_xlsx P [] utf8_password = Some (Inl (Exception ''empty file'')))
   \<and> (utf8_to_utf16 P utf8_password = Inl RangeError \<longrightarrow>
        xlnt_detail_decrypt_xlsx P data utf8_password = Some (Inl RangeError))"
  by (simp add: decrypt_xlsx_def xlnt_detail_decrypt_xlsx_def)

theorem decrypt_xlsx_empty_input_witness:
  "decrypt_xlsx sample_collaborators [] [0x70, 0x77] = Some (Inl (Exception ''empty file''))
   \<and> utf8_to_utf16 sample_collaborators ''pw'' = Inr [0x70, 0x77]
   \<and> xlnt_detail_decrypt_xlsx sample_collaborators [] ''pw'' = Some (Inl (Exception ''empty file''))
   \<and> utf8_to_utf16 sample_collaborators [CHR 0xFF] = Inl RangeError
   \<and> xlnt_detail_decrypt_xlsx sample_collaborators [1, 2, 3] [CHR 0xFF] = Some (Inl RangeError)"
proof -
  have c: "utf8_to_utf16 sample_collaborators ''pw'' = Inr [0x70, 0x77]"
    by (simp add: utf8_to_utf16_def sample_from_bytes_pw)
  have r: "utf8_to_utf16 sample_collaborators [CHR 0xFF] = Inl RangeError"
    by (simp add: utf8_to_utf16_def sample_from_bytes_invalid)
  from decrypt_xlsx_empty_input [of sample_collaborators "[0x70, 0x77]" "''pw''" "[0x70, 0x77]"
      "[1, 2, 3]"]
    decrypt_xlsx_empty_input [of sample_collaborators "[0x70, 0x77]" "[CHR 0xFF]" "[]"
      "[1, 2, 3]"]
    c r
  show ?thesis by simp
qed

text \<open>
  C9 as stated, for every password, fails at the entry point that takes the password
  as a \<open>std::string\<close>: the byte \<open>0xFF\<close> is not UTF-8, the conversion throws before
  \<open>::decrypt_xlsx\<close> is entered, and the empty container is answered with
  \<open>std::range_error\<close>, not with ``empty file''.
\<close>

theorem decrypt_xlsx_empty_input_counterexample:
  "xlnt_detail_decrypt_xlsx sample_collaborators [] [CHR 0xFF] = Some (Inl RangeError)"
  by (simp add: xlnt_detail_decrypt_xlsx_def utf8_to_utf16_def sample_from_bytes_invalid)

end
